theory Spec2Isabelle
  imports Main "HOL-Library.Sublist"
begin

section \<open>Strings\<close>

text \<open>
  The easyblock (\<^verbatim>\<open>easybuild/easyblocks/m/matlab.py\<close>) is modelled with byte strings, as
  under Python 2: a \<open>string\<close> is a list of 8-bit characters, case folding is ASCII only and
  writing a \<^verbatim>\<open>str\<close> to a binary temporary file succeeds. Logging calls
  (\<^verbatim>\<open>self.log.debug\<close>) have no effect on the results and are left out.
\<close>

definition nl :: char where
  "nl = CHR 0x0A"

definition bslash :: char where
  "bslash = CHR 0x5C"

definition is_digit :: "char \<Rightarrow> bool" where
  "is_digit c = (48 \<le> (of_char c :: nat) \<and> (of_char c :: nat) \<le> 57)"

definition is_lower :: "char \<Rightarrow> bool" where
  "is_lower c = (97 \<le> (of_char c :: nat) \<and> (of_char c :: nat) \<le> 122)"

definition is_upper :: "char \<Rightarrow> bool" where
  "is_upper c = (65 \<le> (of_char c :: nat) \<and> (of_char c :: nat) \<le> 90)"

text \<open>\<^verbatim>\<open>sep.join(xs)\<close>\<close>

fun join_str :: "string \<Rightarrow> string list \<Rightarrow> string" where
  "join_str sep [] = []"
| "join_str sep [x] = x"
| "join_str sep (x # y # ys) = x @ sep @ join_str sep (y # ys)"

text \<open>\<^verbatim>\<open>s.split(c)\<close> for a separator of one character.\<close>

fun split_char :: "char \<Rightarrow> string \<Rightarrow> string list" where
  "split_char c [] = [] # []"
| "split_char c (x # xs) =
     (if x = c then [] # split_char c xs
      else (x # hd (split_char c xs)) # tl (split_char c xs))"

text \<open>\<^verbatim>\<open>s.replace(old, new)\<close>: every occurrence, found from left to right, without overlap.\<close>

function replace :: "string \<Rightarrow> string \<Rightarrow> string \<Rightarrow> string" where
  "replace old new s =
     (if old = [] then new @ concat (map (\<lambda>c. c # new) s)
      else if s = [] then []
      else if prefix old s then new @ replace old new (drop (length old) s)
      else hd s # replace old new (tl s))"
  by pat_completeness auto
termination
  by (relation "measure (\<lambda>(old, new, s). length s)") (auto simp: neq_Nil_conv)

declare replace.simps [simp del]

section \<open>Version ordering (\<^verbatim>\<open>distutils.version.LooseVersion\<close>)\<close>

text \<open>
  \<^verbatim>\<open>LooseVersion\<close> belongs to the Python standard library. Its parser splits the version
  string at every match of \<^verbatim>\<open>(\d+ | [a-z]+ | \.)\<close>, drops the empty pieces and the dots, and
  turns the runs of digits into integers. Two versions compare as their component lists do:
  lexicographically, integers by value, strings by bytes, an integer below any string.
\<close>

datatype component = Num nat | Str string

definition is_other :: "char \<Rightarrow> bool" where
  "is_other c = (\<not> is_digit c \<and> \<not> is_lower c \<and> c \<noteq> CHR ''.'')"

definition int_of_digits :: "string \<Rightarrow> nat" where
  "int_of_digits ds = foldl (\<lambda>n c. 10 * n + (of_char c - 48)) 0 ds"

function components :: "string \<Rightarrow> component list" where
  "components [] = []"
| "components (c # cs) =
     (if is_digit c then
        Num (int_of_digits (c # takeWhile is_digit cs)) # components (dropWhile is_digit cs)
      else if is_lower c then
        Str (c # takeWhile is_lower cs) # components (dropWhile is_lower cs)
      else if c = CHR ''.'' then components cs
      else Str (c # takeWhile is_other cs) # components (dropWhile is_other cs))"
  by pat_completeness auto
termination
  by (relation "measure length") (auto simp: le_imp_less_Suc length_dropWhile_le)

fun cmp_str :: "string \<Rightarrow> string \<Rightarrow> int" where
  "cmp_str [] [] = 0"
| "cmp_str [] (y # ys) = -1"
| "cmp_str (x # xs) [] = 1"
| "cmp_str (x # xs) (y # ys) =
     (if x = y then cmp_str xs ys
      else if (of_char x :: nat) < of_char y then -1 else 1)"

fun cmp_component :: "component \<Rightarrow> component \<Rightarrow> int" where
  "cmp_component (Num a) (Num b) = (if a < b then -1 else if a = b then 0 else 1)"
| "cmp_component (Num a) (Str t) = -1"
| "cmp_component (Str s) (Num b) = 1"
| "cmp_component (Str s) (Str t) = cmp_str s t"

fun cmp_version :: "component list \<Rightarrow> component list \<Rightarrow> int" where
  "cmp_version [] [] = 0"
| "cmp_version [] (y # ys) = -1"
| "cmp_version (x # xs) [] = 1"
| "cmp_version (x # xs) (y # ys) =
     (if cmp_component x y = 0 then cmp_version xs ys else cmp_component x y)"

definition LooseVersion :: "string \<Rightarrow> component list" where
  "LooseVersion vstring = components vstring"

definition version_ge :: "string \<Rightarrow> string \<Rightarrow> bool" where
  "version_ge v w = (cmp_version (LooseVersion v) (LooseVersion w) \<ge> 0)"

definition version_lt :: "string \<Rightarrow> string \<Rightarrow> bool" where
  "version_lt v w = (cmp_version (LooseVersion v) (LooseVersion w) < 0)"

section \<open>Python helpers\<close>

definition sq :: char where
  "sq = CHR 0x27"

definition dq :: char where
  "dq = CHR 0x22"

text \<open>\<^verbatim>\<open>os.path.join\<close> (posixpath): a component that starts with a slash restarts the path.\<close>

definition path_join2 :: "string \<Rightarrow> string \<Rightarrow> string" where
  "path_join2 a b =
     (if prefix ''/'' b then b
      else if a = [] \<or> last a = CHR ''/'' then a @ b
      else a @ ''/'' @ b)"

definition path_join :: "string \<Rightarrow> string list \<Rightarrow> string" where
  "path_join a ps = foldl path_join2 a ps"

definition lower_char :: "char \<Rightarrow> char" where
  "lower_char c =
     (case map_of (zip ''ABCDEFGHIJKLMNOPQRSTUVWXYZ'' ''abcdefghijklmnopqrstuvwxyz'') c of
        Some l \<Rightarrow> l
      | None \<Rightarrow> c)"

text \<open>
  \<^verbatim>\<open>re.compile(pattern, re.I).search(s)\<close> for a pattern without regular-expression
  metacharacters: the pattern occurs in \<open>s\<close>, letters compared without their case.
\<close>

definition search_ignorecase :: "string \<Rightarrow> string \<Rightarrow> bool" where
  "search_ignorecase pattern s = sublist (map lower_char pattern) (map lower_char s)"

section \<open>Errors, the environment and the file system\<close>

datatype error =
    EasyBuildError string
  | IOError string
  | ReError string
  | UnboundLocalError string
  | Unsupported string

datatype event =
    Adjust_permissions string
  | Write string string
  | Unlink string
  | Run string

text \<open>
  The process state the easyblock works on: \<^verbatim>\<open>os.environ\<close>, the regular files with their
  text, the directories, the working directory, the candidate names \<^verbatim>\<open>tempfile\<close> draws
  (the \<open>n\<close>-th candidate path and how many were drawn) and the effects so far, oldest first.
\<close>

record world =
  environ :: "string \<rightharpoonup> string"
  files :: "string \<rightharpoonup> string"
  dirs :: "string set"
  cwd :: string
  candidates :: "nat \<Rightarrow> string"
  drawn :: nat
  trace :: "event list"

definition getenv :: "world \<Rightarrow> string \<Rightarrow> string \<Rightarrow> string" where
  "getenv w name dflt = (case environ w name of None \<Rightarrow> dflt | Some v \<Rightarrow> v)"

definition path_exists :: "world \<Rightarrow> string \<Rightarrow> bool" where
  "path_exists w p = (case files w p of Some txt \<Rightarrow> True | None \<Rightarrow> p \<in> dirs w)"

definition write_file :: "string \<Rightarrow> string \<Rightarrow> world \<Rightarrow> world" where
  "write_file p txt w = w\<lparr>files := (files w)(p \<mapsto> txt), trace := trace w @ [Write p txt]\<rparr>"

definition unlink :: "string \<Rightarrow> world \<Rightarrow> world" where
  "unlink p w = w\<lparr>files := (files w)(p := None), trace := trace w @ [Unlink p]\<rparr>"

definition adjust_permissions :: "string \<Rightarrow> world \<Rightarrow> world" where
  "adjust_permissions p w = w\<lparr>trace := trace w @ [Adjust_permissions p]\<rparr>"

definition change_dir :: "string \<Rightarrow> world \<Rightarrow> world" where
  "change_dir p w = w\<lparr>cwd := p\<rparr>"

definition no_such_file :: "string \<Rightarrow> string" where
  "no_such_file p = ''[Errno 2] No such file or directory: '' @ [sq] @ p @ [sq]"

text \<open>
  \<^verbatim>\<open>tempfile\<close> tries up to \<^verbatim>\<open>TMP_MAX\<close> candidate names and takes the first that does not
  exist yet; when all exist it raises an \<^verbatim>\<open>IOError\<close>.
\<close>

definition TMP_MAX :: nat where
  "TMP_MAX = 10000"

fun fresh_path :: "nat \<Rightarrow> world \<Rightarrow> string option \<times> world" where
  "fresh_path n w =
     (if n = 0 then (None, w)
      else if path_exists w (candidates w (drawn w))
      then fresh_path (n - 1) (w\<lparr>drawn := Suc (drawn w)\<rparr>)
      else (Some (candidates w (drawn w)), w\<lparr>drawn := Suc (drawn w)\<rparr>))"

declare fresh_path.simps [simp del]

definition mkdtemp :: "world \<Rightarrow> (error + string) \<times> world" where
  "mkdtemp w =
     (case fresh_path TMP_MAX w of
        (None, w') \<Rightarrow> (Inl (IOError ''[Errno 17] No usable temporary directory name found''), w')
      | (Some d, w') \<Rightarrow> (Inr d, w'\<lparr>dirs := insert d (dirs w')\<rparr>))"

text \<open>\<^verbatim>\<open>tempfile.NamedTemporaryFile()\<close>: a new, empty file.\<close>

definition NamedTemporaryFile :: "world \<Rightarrow> (error + string) \<times> world" where
  "NamedTemporaryFile w =
     (case fresh_path TMP_MAX w of
        (None, w') \<Rightarrow> (Inl (IOError ''[Errno 17] No usable temporary file name found''), w')
      | (Some p, w') \<Rightarrow> (Inr p, w'\<lparr>files := (files w')(p \<mapsto> [])\<rparr>))"

section \<open>Line-anchored substitution (\<^verbatim>\<open>re.sub\<close>)\<close>

text \<open>
  The replacement string of \<^verbatim>\<open>regex.sub\<close> is a template: before any match is looked for,
  \<^verbatim>\<open>sre_parse.parse_template\<close> reads it token by token, a backslash forming one token with
  the character after it. The character escapes are translated, a backslash before a
  character that is neither a letter nor a digit stays as it is, and a backslash at the end
  is an error. A backslash before a digit or another letter is a group reference, an octal
  escape or an unknown escape; what those do differs between Python versions and the
  patterns here have no groups, so the model stops with \<open>Unsupported\<close> on them.
\<close>

definition escape_char :: "char \<Rightarrow> char option" where
  "escape_char c =
     (if c = CHR ''a'' then Some (CHR 0x07)
      else if c = CHR ''b'' then Some (CHR 0x08)
      else if c = CHR ''f'' then Some (CHR 0x0C)
      else if c = CHR ''n'' then Some (CHR 0x0A)
      else if c = CHR ''r'' then Some (CHR 0x0D)
      else if c = CHR ''t'' then Some (CHR 0x09)
      else if c = CHR ''v'' then Some (CHR 0x0B)
      else if c = bslash then Some bslash
      else None)"

fun parse_template :: "string \<Rightarrow> error + string" where
  "parse_template [] = Inr []"
| "parse_template [c] =
     (if c = bslash then Inl (ReError ''bogus escape (end of line)'') else Inr [c])"
| "parse_template (c # d # cs) =
     (if c = bslash then
        (case escape_char d of
           Some e \<Rightarrow> (case parse_template cs of Inl err \<Rightarrow> Inl err | Inr r \<Rightarrow> Inr (e # r))
         | None \<Rightarrow>
             if is_digit d \<or> is_lower d \<or> is_upper d then Inl (Unsupported [c, d])
             else (case parse_template cs of Inl err \<Rightarrow> Inl err | Inr r \<Rightarrow> Inr (c # d # r)))
      else (case parse_template (d # cs) of Inl err \<Rightarrow> Inl err | Inr r \<Rightarrow> Inr (c # r)))"

text \<open>
  \<^verbatim>\<open>re.compile("^" + marker + ".*", re.M).sub(repl, s)\<close> for a marker without
  metacharacters and without a newline, \<open>repl\<close> already parsed: the scan goes through
  \<open>s\<close> from the left; \<open>bol\<close> says that the position is the beginning of a line. A match begins
  at the beginning of a line that starts with the marker and runs to the end of that line.
\<close>

function sub_scan :: "string \<Rightarrow> string \<Rightarrow> bool \<Rightarrow> string \<Rightarrow> string" where
  "sub_scan marker repl bol [] = []"
| "sub_scan marker repl bol (c # cs) =
     (if bol \<and> c \<noteq> nl \<and> prefix marker (c # cs)
      then repl @ sub_scan marker repl False (dropWhile (\<lambda>x. x \<noteq> nl) cs)
      else c # sub_scan marker repl (c = nl) cs)"
  by pat_completeness auto
termination
  by (relation "measure (\<lambda>(marker, repl, bol, s). length s)")
     (auto simp: le_imp_less_Suc length_dropWhile_le)

definition re_sub :: "string \<Rightarrow> string \<Rightarrow> string \<Rightarrow> error + string" where
  "re_sub marker repl s =
     (case parse_template repl of
        Inl err \<Rightarrow> Inl err
      | Inr r \<Rightarrow> Inr (sub_scan marker r True s))"

section \<open>The easyblock \<^verbatim>\<open>EB_MATLAB\<close>\<close>

datatype key_value = KeyString string | KeyList "string list"

record easyconfig =
  license_file :: "string option"
  license_server :: "string option"
  license_server_port :: "string option"
  start_dir :: string
  java_options :: string
  key :: "key_value option"
  preinstallopts :: string
  installopts :: string

record easyblock =
  cfg :: easyconfig
  builddir :: string
  installdir :: string
  version :: string
  configfile :: string

text \<open>\<^verbatim>\<open>__init__\<close> fixes the path of the configuration file inside the build directory.\<close>

definition init :: "easyconfig \<Rightarrow> string \<Rightarrow> string \<Rightarrow> string \<Rightarrow> easyblock" where
  "init c bdir idir v =
     \<lparr>cfg = c, builddir = bdir, installdir = idir, version = v,
      configfile = path_join bdir [''my_installer_input.txt'']\<rparr>"

definition and_then :: "error + 'a \<Rightarrow> ('a \<Rightarrow> error + 'b) \<Rightarrow> error + 'b" where
  "and_then r f = (case r of Inl e \<Rightarrow> Inl e | Inr x \<Rightarrow> f x)"

subsection \<open>\<^verbatim>\<open>configure_step\<close>\<close>

definition license_text :: "string \<Rightarrow> string \<Rightarrow> string" where
  "license_text licserv licport =
     join_str [nl] [''SERVER '' @ licserv @ '' 000000000000 '' @ licport, ''USE_SERVER'']"

text \<open>Lines 72 to 87: the license file that the configuration will name.\<close>

definition license_step :: "easyblock \<Rightarrow> world \<Rightarrow> string \<times> world" where
  "license_step self w =
     (case license_file (cfg self) of
        Some licfile \<Rightarrow> (licfile, w)
      | None \<Rightarrow>
          (let licserv = (case license_server (cfg self) of
                            None \<Rightarrow> getenv w ''EB_MATLAB_LICENSE_SERVER'' ''license.example.com''
                          | Some s \<Rightarrow> s);
               licport = (case license_server_port (cfg self) of
                            None \<Rightarrow> getenv w ''EB_MATLAB_LICENSE_SERVER_PORT'' ''00000''
                          | Some p \<Rightarrow> p);
               lictxt = license_text licserv licport;
               licfile = path_join (builddir self) [''matlab.lic'']
           in (licfile, write_file licfile lictxt w)))"

text \<open>Lines 93 to 101: the four substitutions, one after the other.\<close>

definition activate :: "string \<Rightarrow> string \<Rightarrow> string \<Rightarrow> error + string" where
  "activate idir licfile config =
     and_then (re_sub ''# destinationFolder='' (''destinationFolder='' @ idir) config) (\<lambda>config.
     and_then (re_sub ''# agreeToLicense='' ''agreeToLicense=Yes'' config) (\<lambda>config.
     and_then (re_sub ''# mode='' ''mode=silent'' config) (\<lambda>config.
     re_sub ''# licensePath='' (''licensePath='' @ licfile) config)))"

definition configure_step :: "easyblock \<Rightarrow> world \<Rightarrow> (error + unit) \<times> world" where
  "configure_step self w =
     (let (licfile, w1) = license_step self w;
          src = path_join (start_dir (cfg self)) [''installer_input.txt'']
      in case files w1 src of
           None \<Rightarrow>
             (Inl (EasyBuildError (''Failed to create installation config file ''
                     @ configfile self @ '': '' @ no_such_file src)), w1)
         | Some template \<Rightarrow>
             (let w2 = write_file (configfile self) template w1
              in case activate (installdir self) licfile template of
                   Inl e \<Rightarrow> (Inl e, w2)
                 | Inr config \<Rightarrow> (Inr (), write_file (configfile self) config w2)))"

subsection \<open>\<^verbatim>\<open>install_step\<close>\<close>

text \<open>
  \<^verbatim>\<open>run_cmd\<close> belongs to the EasyBuild framework and the installer is the vendor's: both are
  a parameter here. A call sees the state and the command string; it gives back the
  captured output with the exit code, or it raises. What the installer writes itself is
  not part of the state. What the framework's \<^verbatim>\<open>run_cmd\<close> does with the exit code is given
  below as \<open>run_cmd_log_all\<close>, one such parameter.
\<close>

datatype cmd_result = Returned string int | Raised error

type_synonym shell = "world \<Rightarrow> string \<Rightarrow> cmd_result"

definition run_cmd :: "shell \<Rightarrow> string \<Rightarrow> world \<Rightarrow> cmd_result \<times> world" where
  "run_cmd sh cmd w = (sh w cmd, w\<lparr>trace := trace w @ [Run cmd]\<rparr>)"

text \<open>\<^verbatim>\<open>(out, _) = run_cmd(...)\<close>: the output is kept, the exit code is dropped.\<close>

fun captured :: "cmd_result \<Rightarrow> error + string" where
  "captured (Returned out ec) = Inr out"
| "captured (Raised e) = Inl e"

definition patterns :: "string list" where
  "patterns = [''Error: You have entered an invalid File Installation Key'']"

definition found_error_pattern :: "string \<Rightarrow> string \<Rightarrow> string \<Rightarrow> error" where
  "found_error_pattern pattern cmd out =
     EasyBuildError (''Found error pattern '' @ [sq] @ pattern @ [sq]
       @ '' in output of installation command '' @ [sq] @ cmd @ [sq] @ '': '' @ out)"

text \<open>Lines 189 to 198: the captured output is searched for each known pattern.\<close>

fun check_output :: "string list \<Rightarrow> string \<Rightarrow> string \<Rightarrow> error + unit" where
  "check_output [] cmd out = Inr ()"
| "check_output (pattern # ps) cmd out =
     (if search_ignorecase pattern out then Inl (found_error_pattern pattern cmd out)
      else check_output ps cmd out)"

definition key_variant :: "string \<Rightarrow> string \<Rightarrow> string" where
  "key_variant tmp_config k =
     replace ''# fileInstallationKey='' (''fileInstallationKey='' @ k) tmp_config"

definition failed_tmp_config :: "string \<Rightarrow> string \<Rightarrow> error" where
  "failed_tmp_config tmp_configfile err =
     EasyBuildError (''Failed to create temporary config file '' @ tmp_configfile @ '': '' @ err)"

text \<open>The command strings (lines 160 to 166 and 175 to 185).\<close>

definition binary_command :: "easyblock \<Rightarrow> string \<Rightarrow> string \<Rightarrow> string" where
  "binary_command self src tmp_configfile =
     join_str '' '' [preinstallopts (cfg self), src, ''-inputFile'', tmp_configfile,
       installopts (cfg self)]"

definition script_command :: "easyblock \<Rightarrow> string \<Rightarrow> string \<Rightarrow> string \<Rightarrow> string" where
  "script_command self src tmpdir k =
     join_str '' '' [preinstallopts (cfg self), src, ''-v'', tmpdir, ''-inputFile'',
       configfile self, ''-fileInstallationKey'', k, installopts (cfg self)]"

text \<open>
  Lines 149 to 171, the branch that logs "using binary installer method": a temporary copy
  of the configuration with the key filled in is written and the installer is run on it.
  \<open>tcf\<close> is the local variable \<^verbatim>\<open>tmp_configfile\<close>, unbound until the first temporary file
  exists. The temporary file is removed when its \<^verbatim>\<open>with\<close> block is left, also by an
  exception. The text counts as written when the installer runs: the buffer of the file
  object is not part of the state. The result is the command with the captured output.
\<close>

definition binary_installer_method ::
  "shell \<Rightarrow> easyblock \<Rightarrow> string \<Rightarrow> string option \<Rightarrow> string \<Rightarrow> world
     \<Rightarrow> (error + string \<times> string) \<times> string option \<times> world" where
  "binary_installer_method sh self src tcf k w =
     (case NamedTemporaryFile w of
        (Inl (IOError err), w1) \<Rightarrow>
          (case tcf of
             None \<Rightarrow> (Inl (UnboundLocalError ''tmp_configfile''), tcf, w1)
           | Some old \<Rightarrow> (Inl (failed_tmp_config old err), tcf, w1))
      | (Inl e, w1) \<Rightarrow> (Inl e, tcf, w1)
      | (Inr tmp_configfile, w1) \<Rightarrow>
          (case files w1 (configfile self) of
             None \<Rightarrow>
               (Inl (failed_tmp_config tmp_configfile (no_such_file (configfile self))),
                Some tmp_configfile, unlink tmp_configfile w1)
           | Some template \<Rightarrow>
               (let tmp_config = key_variant template k;
                    w2 = write_file tmp_configfile tmp_config w1;
                    cmd = binary_command self src tmp_configfile;
                    (res, w3) = run_cmd sh cmd w2;
                    w4 = unlink tmp_configfile w3
                in case captured res of
                     Inl (IOError err) \<Rightarrow>
                       (Inl (failed_tmp_config tmp_configfile err), Some tmp_configfile, w4)
                   | Inl e \<Rightarrow> (Inl e, Some tmp_configfile, w4)
                   | Inr out \<Rightarrow> (Inr (cmd, out), Some tmp_configfile, w4))))"

text \<open>
  Lines 174 to 187, the branch that logs "using script installer method": the installer is
  run on the base configuration, the key is a flag of the command.
\<close>

definition script_installer_method ::
  "shell \<Rightarrow> easyblock \<Rightarrow> string \<Rightarrow> string \<Rightarrow> string \<Rightarrow> world
     \<Rightarrow> (error + string \<times> string) \<times> world" where
  "script_installer_method sh self src tmpdir k w =
     (let cmd = script_command self src tmpdir k;
          (res, w1) = run_cmd sh cmd w
      in case captured res of
           Inl e \<Rightarrow> (Inl e, w1)
         | Inr out \<Rightarrow> (Inr (cmd, out), w1))"

text \<open>Lines 148 to 187: the installer is invoked by the method that fits the version.\<close>

definition invoke_installer ::
  "shell \<Rightarrow> easyblock \<Rightarrow> string \<Rightarrow> string \<Rightarrow> string option \<Rightarrow> string \<Rightarrow> world
     \<Rightarrow> (error + string \<times> string) \<times> string option \<times> world" where
  "invoke_installer sh self src tmpdir tcf k w =
     (if version_ge (version self) ''2020a''
      then binary_installer_method sh self src tcf k w
      else (let (res, w') = script_installer_method sh self src tmpdir k w
            in (res, tcf, w')))"

text \<open>One pass of the loop (lines 148 to 198): the invocation, then the look at its output.\<close>

definition install_key ::
  "shell \<Rightarrow> easyblock \<Rightarrow> string \<Rightarrow> string \<Rightarrow> string option \<Rightarrow> string \<Rightarrow> world
     \<Rightarrow> (error + unit) \<times> string option \<times> world" where
  "install_key sh self src tmpdir tcf k w =
     (let (res, tcf', w') = invoke_installer sh self src tmpdir tcf k w
      in case res of
           Inl e \<Rightarrow> (Inl e, tcf', w')
         | Inr (cmd, out) \<Rightarrow> (check_output patterns cmd out, tcf', w'))"

text \<open>The loop over the keys (line 144): the first exception ends it.\<close>

fun install_keys ::
  "shell \<Rightarrow> easyblock \<Rightarrow> string \<Rightarrow> string \<Rightarrow> string option \<Rightarrow> string list \<Rightarrow> world
     \<Rightarrow> (error + unit) \<times> string option \<times> world" where
  "install_keys sh self src tmpdir tcf [] w = (Inr (), tcf, w)"
| "install_keys sh self src tmpdir tcf (k # ks) w =
     (case install_key sh self src tmpdir tcf k w of
        (Inl e, tcf', w') \<Rightarrow> (Inl e, tcf', w')
      | (Inr u, tcf', w') \<Rightarrow> install_keys sh self src tmpdir tcf' ks w')"

text \<open>Lines 137 to 141: the key list.\<close>

definition default_key :: string where
  "default_key = ''00000-00000-00000-00000-00000-00000-00000-00000-00000-00000''"

definition key_list :: "easyblock \<Rightarrow> world \<Rightarrow> string list" where
  "key_list self w =
     (case key (cfg self) of
        None \<Rightarrow> split_char CHR '','' (getenv w ''EB_MATLAB_KEY'' default_key)
      | Some (KeyString s) \<Rightarrow> split_char CHR '','' s
      | Some (KeyList ks) \<Rightarrow> ks)"

text \<open>Lines 128 to 130: the Java options go in front of the pre-install options.\<close>

definition with_java_options :: "easyblock \<Rightarrow> easyblock" where
  "with_java_options self =
     (if \<not> sublist ''_JAVA_OPTIONS'' (preinstallopts (cfg self)) then
        self\<lparr>cfg := (cfg self)\<lparr>preinstallopts :=
          ''export _JAVA_OPTIONS='' @ [dq] @ java_options (cfg self) @ [dq] @ '' && ''
            @ preinstallopts (cfg self)\<rparr>\<rparr>
      else self)"

text \<open>Lines 113 to 135: what happens before the loop.\<close>

definition prepare :: "easyblock \<Rightarrow> world \<Rightarrow> world" where
  "prepare self w =
     (let src = path_join (start_dir (cfg self)) [''install''];
          w1 = adjust_permissions src w;
          w2 = (if version_ge (version self) ''2016b'' then
                  adjust_permissions
                    (path_join (start_dir (cfg self))
                       [''sys'', ''java'', ''jre'', ''glnxa64'', ''jre'', ''bin''])
                    (adjust_permissions (path_join (start_dir (cfg self)) [''bin'', ''glnxa64'']) w1)
                else w1);
          w3 = w2\<lparr>environ := (environ w2)(''DISPLAY'' := None)\<rparr>
      in if version_ge (version self) ''2016b'' then change_dir (builddir self) w3 else w3)"

definition install_step :: "shell \<Rightarrow> easyblock \<Rightarrow> world \<Rightarrow> (error + unit) \<times> easyblock \<times> world" where
  "install_step sh self w =
     (let src = path_join (start_dir (cfg self)) [''install''];
          self' = with_java_options self;
          w1 = prepare self w
      in case mkdtemp w1 of
           (Inl e, w2) \<Rightarrow> (Inl e, self', w2)
         | (Inr d, w2) \<Rightarrow>
             (let tmpdir = ''-tmpdir '' @ d;
                  keys = key_list self' w2;
                  (res, tcf, w3) = install_keys sh self' src tmpdir None keys w2
              in (res, self', w3)))"

text \<open>The commands that were run, in order.\<close>

fun commands :: "event list \<Rightarrow> string list" where
  "commands [] = []"
| "commands (Run c # es) = c # commands es"
| "commands (e # es) = commands es"

text \<open>The texts that were written to files, in order.\<close>

fun writes :: "event list \<Rightarrow> string list" where
  "writes [] = []"
| "writes (Write p txt # es) = txt # writes es"
| "writes (e # es) = writes es"

subsection \<open>\<^verbatim>\<open>run_cmd\<close> as the framework has it\<close>

text \<open>
  Lines 168 and 187 call \<^verbatim>\<open>run_cmd(cmd, log_all=True, simple=False)\<close>. In the EasyBuild
  framework (\<^verbatim>\<open>easybuild.tools.run\<close>, release 4) \<^verbatim>\<open>run_cmd\<close> waits for the subprocess and
  hands its output and exit code to \<^verbatim>\<open>parse_cmd_output\<close>, which looks at the strictness of
  the framework (the build option \<^verbatim>\<open>strict\<close>: \<^verbatim>\<open>ignore\<close>, \<^verbatim>\<open>warn\<close> or \<^verbatim>\<open>error\<close>, and
  \<^verbatim>\<open>warn\<close> when nothing is configured). With \<^verbatim>\<open>log_all=True\<close> a non-zero exit code raises
  an \<^verbatim>\<open>EasyBuildError\<close> unless the strictness is \<^verbatim>\<open>ignore\<close>; otherwise the pair of output
  and exit code is returned. Under \<^verbatim>\<open>error\<close> the output of a subprocess that ended with 0
  is searched for error words as well (\<^verbatim>\<open>parse_log_for_error\<close>); that search is not
  modelled and the model stops with \<open>Unsupported\<close> there. The installer is a subprocess
  that starts and ends: it sees the state and the command and gives its output and its
  exit code.
\<close>

datatype strictness = IGNORE | WARN | ERROR

text \<open>\<^verbatim>\<open>"%s" % n\<close> for an integer.\<close>

function str_nat :: "nat \<Rightarrow> string" where
  "str_nat n =
     (if n < 10 then [''0123456789'' ! n]
      else str_nat (n div 10) @ [''0123456789'' ! (n mod 10)])"
  by pat_completeness auto
termination
  by (relation "measure id") auto

declare str_nat.simps [simp del]

definition str_int :: "int \<Rightarrow> string" where
  "str_int i = (if i < 0 then CHR ''-'' # str_nat (nat (- i)) else str_nat (nat i))"

definition exit_code_error :: "string \<Rightarrow> int \<Rightarrow> string \<Rightarrow> error" where
  "exit_code_error cmd ec stdouterr =
     EasyBuildError (''cmd '' @ [dq] @ cmd @ [dq] @ '' exited with exit code '' @ str_int ec
       @ '' and output:'' @ [nl] @ stdouterr)"

definition parse_cmd_output :: "strictness \<Rightarrow> string \<Rightarrow> string \<Rightarrow> int \<Rightarrow> cmd_result" where
  "parse_cmd_output st cmd stdouterr ec =
     (if ec \<noteq> 0 \<and> st \<noteq> IGNORE then Raised (exit_code_error cmd ec stdouterr)
      else if st = ERROR then Raised (Unsupported ''parse_log_for_error'')
      else Returned stdouterr ec)"

type_synonym installer = "world \<Rightarrow> string \<Rightarrow> string \<times> int"

definition run_cmd_log_all :: "strictness \<Rightarrow> installer \<Rightarrow> shell" where
  "run_cmd_log_all st inst w cmd =
     (case inst w cmd of (out, ec) \<Rightarrow> parse_cmd_output st cmd out ec)"

section \<open>The specification of the substitutions\<close>

text \<open>
  The specification describes the four substitutions line by line: a line that begins with
  one of the four commented markers is replaced, as a whole, by the activated assignment,
  and every other line is left as it is. This is that description, to compare the code with.
\<close>

definition activated_line :: "string \<Rightarrow> string \<Rightarrow> string \<Rightarrow> string" where
  "activated_line idir licfile l =
     (if prefix ''# destinationFolder='' l then ''destinationFolder='' @ idir
      else if prefix ''# agreeToLicense='' l then ''agreeToLicense=Yes''
      else if prefix ''# mode='' l then ''mode=silent''
      else if prefix ''# licensePath='' l then ''licensePath='' @ licfile
      else l)"

section \<open>Sample inputs\<close>

text \<open>A small template, a configuration and a state, on which the results are tried out.\<close>

definition sample_template :: string where
  "sample_template =
     ''## installer input'' @ [nl] @ ''# destinationFolder='' @ [nl] @ ''# agreeToLicense='' @ [nl]
     @ ''# mode='' @ [nl] @ ''# licensePath='' @ [nl] @ ''# fileInstallationKey='' @ [nl]"

definition sample_config :: easyconfig where
  "sample_config =
     \<lparr>license_file = None, license_server = None, license_server_port = None,
      start_dir = ''/src'', java_options = ''-Xmx256m'', key = Some (KeyString ''AAAA,BBBB''),
      preinstallopts = [], installopts = ''-x''\<rparr>"

definition sample_world :: world where
  "sample_world =
     \<lparr>environ = Map.empty,
      files = [''/src/installer_input.txt'' \<mapsto> sample_template,
               ''/build/my_installer_input.txt'' \<mapsto> ''# fileInstallationKey='' @ [nl]],
      dirs = {}, cwd = ''/'', candidates = (\<lambda>n. ''/tmp/tmp'' @ replicate n CHR ''x''),
      drawn = 0, trace = []\<rparr>"

text \<open>An installer that prints a line and ends with exit code 1.\<close>

definition sample_shell :: shell where
  "sample_shell w cmd = Returned ''done'' 1"

text \<open>An installer that rejects the key "BBBB".\<close>

definition picky_shell :: shell where
  "picky_shell w cmd =
     (if sublist ''BBBB'' cmd
      then Returned ''ERROR: you have entered an invalid file installation key.'' 0
      else Returned ''done'' 0)"

text \<open>
  Two subprocesses: one prints a line and ends with exit code 1, the other rejects the key
  "BBBB" in its output and ends with exit code 0 in any case.
\<close>

definition failing_installer :: installer where
  "failing_installer w cmd = (''done'', 1)"

definition picky_installer :: installer where
  "picky_installer w cmd =
     (if sublist ''BBBB'' cmd
      then (''ERROR: you have entered an invalid file installation key.'', 0)
      else (''done'', 0))"

text \<open>A configuration in which the key field is commented out once and, below, twice.\<close>

definition commented_twice :: string where
  "commented_twice = ''# fileInstallationKey='' @ [nl] @ ''# # fileInstallationKey='' @ [nl]"

section \<open>Properties\<close>

subsection \<open>Versions\<close>

lemmas version_defs =
  version_lt_def version_ge_def LooseVersion_def is_digit_def is_lower_def is_other_def
  int_of_digits_def

lemma LooseVersion_2020a: "LooseVersion ''2020a'' = [Num 2020, Str ''a'']"
  by (simp add: version_defs)

text \<open>
  Claim C5. The version comparison orders "2016b" < "2017a" < "2020a" < "2020b": the
  versions are compared component by component, the number 2020 first and the letter after
  it, which is not the comparison of the strings ("10000a" is at or above "2020a" as a
  version and below it as a string). A pass of the loop takes the branch of the input-file
  method exactly when the version is at or above "2020a" in this order, and the branch of
  the script method otherwise.
\<close>

theorem version_order_selects_method:
  "version_lt ''2016b'' ''2017a'' \<and> version_lt ''2017a'' ''2020a'' \<and> version_lt ''2020a'' ''2020b''
   \<and> \<not> version_ge ''2016b'' ''2020a'' \<and> \<not> version_ge ''2017a'' ''2020a''
   \<and> version_ge ''2020a'' ''2020a'' \<and> version_ge ''2020b'' ''2020a''
   \<and> version_ge ''10000a'' ''2020a'' \<and> cmp_str ''10000a'' ''2020a'' < 0
   \<and> install_key sh self src tmpdir tcf k w =
       (if 0 \<le> cmp_version (components (version self)) [Num 2020, Str ''a'']
        then (case binary_installer_method sh self src tcf k w of
                (Inl e, t, w') \<Rightarrow> (Inl e, t, w')
              | (Inr (cmd, out), t, w') \<Rightarrow> (check_output patterns cmd out, t, w'))
        else (case script_installer_method sh self src tmpdir k w of
                (Inl e, w') \<Rightarrow> (Inl e, tcf, w')
              | (Inr (cmd, out), w') \<Rightarrow> (check_output patterns cmd out, tcf, w')))"
proof -
  have order: "version_lt ''2016b'' ''2017a'' \<and> version_lt ''2017a'' ''2020a''
      \<and> version_lt ''2020a'' ''2020b''"
    by (simp add: version_defs)
  have gate: "\<not> version_ge ''2016b'' ''2020a'' \<and> \<not> version_ge ''2017a'' ''2020a''
      \<and> version_ge ''2020a'' ''2020a'' \<and> version_ge ''2020b'' ''2020a''"
    by (simp add: version_defs)
  have strings: "version_ge ''10000a'' ''2020a'' \<and> cmp_str ''10000a'' ''2020a'' < 0"
    by (simp add: version_defs)
  have ge: "version_ge (version self) ''2020a''
      = (0 \<le> cmp_version (components (version self)) [Num 2020, Str ''a''])"
    using LooseVersion_2020a by (simp add: version_ge_def LooseVersion_def)
  have branch: "install_key sh self src tmpdir tcf k w =
       (if 0 \<le> cmp_version (components (version self)) [Num 2020, Str ''a'']
        then (case binary_installer_method sh self src tcf k w of
                (Inl e, t, w') \<Rightarrow> (Inl e, t, w')
              | (Inr (cmd, out), t, w') \<Rightarrow> (check_output patterns cmd out, t, w'))
        else (case script_installer_method sh self src tmpdir k w of
                (Inl e, w') \<Rightarrow> (Inl e, tcf, w')
              | (Inr (cmd, out), w') \<Rightarrow> (check_output patterns cmd out, tcf, w')))"
    unfolding install_key_def invoke_installer_def ge by (simp split: prod.splits sum.splits)
  from order gate strings branch show ?thesis by blast
qed

subsection \<open>The state after the helpers\<close>

lemma commands_append: "commands (xs @ ys) = commands xs @ commands ys"
  by (induction xs rule: commands.induct) auto

lemma commands_map_Run: "commands (map (\<lambda>k. Run (f k)) ks) = map f ks"
  by (induction ks) auto

lemma version_lt_iff: "version_lt v w = (\<not> version_ge v w)"
  by (auto simp: version_lt_def version_ge_def)

lemma path_exists_drawn: "path_exists (w\<lparr>drawn := m\<rparr>) p = path_exists w p"
  by (simp add: path_exists_def split: option.splits)

lemma fresh_path_result:
  "fresh_path n w = (r, w') \<Longrightarrow>
     w' = w\<lparr>drawn := drawn w'\<rparr> \<and> (\<forall>p. r = Some p \<longrightarrow> \<not> path_exists w p)"
proof (induction n w arbitrary: r w' rule: fresh_path.induct)
  case (1 n w)
  show ?case
  proof (cases "n = 0")
    case True
    with "1.prems" show ?thesis by (auto simp: fresh_path.simps)
  next
    case False
    show ?thesis
    proof (cases "path_exists w (candidates w (drawn w))")
      case True
      with False "1.prems" have "fresh_path (n - 1) (w\<lparr>drawn := Suc (drawn w)\<rparr>) = (r, w')"
        by (simp add: fresh_path.simps)
      from "1.IH"[OF False True this]
      have a: "w' = w\<lparr>drawn := Suc (drawn w)\<rparr>\<lparr>drawn := drawn w'\<rparr>"
        and b: "\<forall>p. r = Some p \<longrightarrow> \<not> path_exists w p"
        by (auto simp: path_exists_drawn)
      from a have "w' = w\<lparr>drawn := drawn w'\<rparr>" by simp
      with b show ?thesis by blast
    next
      case ex: False
      with False "1.prems" show ?thesis by (auto simp: fresh_path.simps)
    qed
  qed
qed

lemma mkdtemp_result:
  assumes "mkdtemp w = (Inr d, w')"
  shows "\<not> path_exists w d \<and> w' = w\<lparr>dirs := insert d (dirs w), drawn := drawn w'\<rparr>"
proof -
  obtain r w1 where f: "fresh_path TMP_MAX w = (r, w1)" by (cases "fresh_path TMP_MAX w")
  from fresh_path_result[OF f] obtain m where w1: "w1 = w\<lparr>drawn := m\<rparr>"
    and fresh: "\<forall>p. r = Some p \<longrightarrow> \<not> path_exists w p" by blast
  from assms f have r: "r = Some d" and w': "w' = w1\<lparr>dirs := insert d (dirs w1)\<rparr>"
    by (auto simp: mkdtemp_def split: option.splits)
  from w' w1 have "w' = w\<lparr>dirs := insert d (dirs w), drawn := drawn w'\<rparr>" by simp
  with r fresh show ?thesis by blast
qed

lemma NamedTemporaryFile_result:
  assumes "NamedTemporaryFile w = (Inr p, w')"
  shows "\<not> path_exists w p \<and> w' = w\<lparr>files := (files w)(p \<mapsto> []), drawn := drawn w'\<rparr>"
proof -
  obtain r w1 where f: "fresh_path TMP_MAX w = (r, w1)" by (cases "fresh_path TMP_MAX w")
  from fresh_path_result[OF f] obtain m where w1: "w1 = w\<lparr>drawn := m\<rparr>"
    and fresh: "\<forall>p. r = Some p \<longrightarrow> \<not> path_exists w p" by blast
  from assms f have r: "r = Some p" and w': "w' = w1\<lparr>files := (files w1)(p \<mapsto> [])\<rparr>"
    by (auto simp: NamedTemporaryFile_def split: option.splits)
  from w' w1 have "w' = w\<lparr>files := (files w)(p \<mapsto> []), drawn := drawn w'\<rparr>" by simp
  with r fresh show ?thesis by blast
qed

lemma prepare_fields:
  "files (prepare self w) = files w" "dirs (prepare self w) = dirs w"
  "drawn (prepare self w) = drawn w" "candidates (prepare self w) = candidates w"
  "commands (trace (prepare self w)) = commands (trace w)"
  "environ (prepare self w) = (environ w)(''DISPLAY'' := None)"
  by (simp_all add: prepare_def Let_def adjust_permissions_def change_dir_def commands_append)

lemma path_exists_prepare: "path_exists (prepare self w) p = path_exists w p"
  by (simp add: path_exists_def prepare_fields split: option.splits)

lemma key_list_prepare: "key_list (with_java_options self) (prepare self w) = key_list self w"
  by (simp add: key_list_def with_java_options_def getenv_def prepare_fields
      split: option.splits key_value.splits)

subsection \<open>The loop with the script method\<close>

lemma install_key_script:
  assumes "\<not> version_ge (version self) ''2020a''"
    and "install_key sh self src tmpdir tcf k w = (res, tcf', w')"
  shows "w' = w\<lparr>trace := trace w @ [Run (script_command self src tmpdir k)]\<rparr> \<and> tcf' = tcf"
  using assms
  by (auto simp: install_key_def invoke_installer_def script_installer_method_def run_cmd_def
      Let_def split: sum.splits prod.splits)

lemma install_keys_script:
  assumes "\<not> version_ge (version self) ''2020a''"
  shows "install_keys sh self src tmpdir tcf ks w = (res, tcf', w') \<Longrightarrow>
     \<exists>n\<le>length ks.
        w' = w\<lparr>trace := trace w @ map (\<lambda>k. Run (script_command self src tmpdir k)) (take n ks)\<rparr>
        \<and> (res = Inr () \<longrightarrow> n = length ks) \<and> (ks \<noteq> [] \<longrightarrow> 0 < n)"
proof (induction ks arbitrary: w tcf)
  case Nil
  then show ?case by auto
next
  case (Cons k ks)
  obtain r1 t1 w1 where p: "install_key sh self src tmpdir tcf k w = (r1, t1, w1)"
    by (cases "install_key sh self src tmpdir tcf k w")
  from install_key_script[OF assms p]
  have w1: "w1 = w\<lparr>trace := trace w @ [Run (script_command self src tmpdir k)]\<rparr>" by simp
  show ?case
  proof (cases r1)
    case (Inl e)
    with Cons.prems p have "w' = w1" "res = Inl e" by auto
    with w1 have
      "w' = w\<lparr>trace := trace w
              @ map (\<lambda>k. Run (script_command self src tmpdir k)) (take 1 (k # ks))\<rparr>
        \<and> (res = Inr () \<longrightarrow> 1 = length (k # ks))" by simp
    then show ?thesis by (intro exI[of _ 1]) simp
  next
    case (Inr u)
    with Cons.prems p have "install_keys sh self src tmpdir t1 ks w1 = (res, tcf', w')" by auto
    from Cons.IH[OF this] obtain n where n: "n \<le> length ks"
      "w' = w1\<lparr>trace := trace w1
              @ map (\<lambda>k. Run (script_command self src tmpdir k)) (take n ks)\<rparr>"
      "res = Inr () \<longrightarrow> n = length ks" by blast
    with w1 have
      "w' = w\<lparr>trace := trace w
              @ map (\<lambda>k. Run (script_command self src tmpdir k)) (take (Suc n) (k # ks))\<rparr>
        \<and> (res = Inr () \<longrightarrow> Suc n = length (k # ks))" by simp
    with n(1) show ?thesis by (intro exI[of _ "Suc n"]) simp
  qed
qed

subsection \<open>The install step with the script method\<close>

lemma with_java_options_fields:
  "version (with_java_options self) = version self"
  "configfile (with_java_options self) = configfile self"
  "installopts (cfg (with_java_options self)) = installopts (cfg self)"
  "start_dir (cfg (with_java_options self)) = start_dir (cfg self)"
  by (simp_all add: with_java_options_def)

lemma key_list_environ:
  "environ w' = environ w \<Longrightarrow> key_list self w' = key_list self w"
  by (simp add: key_list_def getenv_def split: option.splits key_value.splits)

lemma install_step_script:
  assumes legacy: "\<not> version_ge (version self) ''2020a''"
    and tmp: "fst (mkdtemp (prepare self w)) = Inr d"
  shows "\<not> path_exists w d
     \<and> dirs (snd (snd (install_step sh self w))) = insert d (dirs w)
     \<and> fst (snd (install_step sh self w)) = with_java_options self
     \<and> (\<exists>n\<le>length (key_list self w).
          commands (trace (snd (snd (install_step sh self w)))) =
            commands (trace w)
            @ map (script_command (with_java_options self)
                     (path_join (start_dir (cfg self)) [''install'']) (''-tmpdir '' @ d))
                (take n (key_list self w))
          \<and> (fst (install_step sh self w) = Inr () \<longrightarrow> n = length (key_list self w))
          \<and> (key_list self w \<noteq> [] \<longrightarrow> 0 < n))"
proof -
  let ?self = "with_java_options self"
  let ?src = "path_join (start_dir (cfg self)) [''install'']"
  let ?cmd = "script_command ?self ?src (''-tmpdir '' @ d)"
  obtain w2 where m: "mkdtemp (prepare self w) = (Inr d, w2)"
    using tmp by (cases "mkdtemp (prepare self w)") auto
  from mkdtemp_result[OF m] obtain i where fresh: "\<not> path_exists w d"
    and w2: "w2 = (prepare self w)\<lparr>dirs := insert d (dirs w), drawn := i\<rparr>"
    by (auto simp: path_exists_prepare prepare_fields)
  have keys: "key_list ?self w2 = key_list self w"
    using key_list_prepare[of self w] key_list_environ[of w2 "prepare self w" ?self] w2 by simp
  obtain res tcf w3 where
    loop: "install_keys sh ?self ?src (''-tmpdir '' @ d) None (key_list self w) w2 = (res, tcf, w3)"
    by (cases "install_keys sh ?self ?src (''-tmpdir '' @ d) None (key_list self w) w2")
  have step: "install_step sh self w = (res, ?self, w3)"
    using loop by (simp add: install_step_def Let_def m keys)
  have legacy': "\<not> version_ge (version ?self) ''2020a''"
    using legacy by (simp add: with_java_options_fields)
  from install_keys_script[OF legacy' loop] obtain n where n: "n \<le> length (key_list self w)"
    and w3: "w3 = w2\<lparr>trace := trace w2 @ map (\<lambda>k. Run (?cmd k)) (take n (key_list self w))\<rparr>"
    and fin: "res = Inr () \<longrightarrow> n = length (key_list self w)"
    and some: "key_list self w \<noteq> [] \<longrightarrow> 0 < n" by blast
  from w3 w2 have d: "dirs w3 = insert d (dirs w)" by simp
  from w3 w2 have "commands (trace w3)
      = commands (trace w) @ map ?cmd (take n (key_list self w))"
    by (simp add: commands_append commands_map_Run prepare_fields)
  with n fin some fresh d step show ?thesis by auto
qed

subsection \<open>Evaluation on the sample inputs\<close>

lemmas sample_defs =
  init_def sample_config_def sample_world_def sample_shell_def sample_template_def
  path_join_def path_join2_def

lemma sample_mkdtemp:
  "fst (mkdtemp (prepare (init c ''/build'' ''/apps/matlab'' v) sample_world)) = Inr ''/tmp/tmp''"
  by (simp add: mkdtemp_def TMP_MAX_def fresh_path.simps path_exists_def prepare_fields
      sample_world_def prepare_def Let_def adjust_permissions_def change_dir_def)

lemmas run_defs =
  install_step_def install_key_def invoke_installer_def script_installer_method_def
  binary_installer_method_def run_cmd_def script_command_def binary_command_def
  with_java_options_def prepare_def adjust_permissions_def change_dir_def key_list_def
  getenv_def mkdtemp_def NamedTemporaryFile_def TMP_MAX_def fresh_path.simps path_exists_def
  write_file_def unlink_def patterns_def search_ignorecase_def lower_char_def sublist_code
  key_variant_def

subsection \<open>The script method: command and temporary directory\<close>

text \<open>
  Claim C6. With one key and a version strictly below "2020a", exactly one command is run,
  and it is, in this order and separated by single spaces: the pre-install options (with
  the export of the Java options in front when they did not mention
  \<^verbatim>\<open>_JAVA_OPTIONS\<close>), the installer path, \<^verbatim>\<open>-v\<close>, \<^verbatim>\<open>-tmpdir\<close> with a directory that
  did not exist before the step and exists after it, \<^verbatim>\<open>-inputFile\<close>, the path of the base
  configuration, \<^verbatim>\<open>-fileInstallationKey\<close>, the key and the install options. The hypothesis
  on \<open>mkdtemp\<close> says that a temporary directory could be created.
\<close>

theorem script_command_single_key:
  assumes "version_lt (version self) ''2020a''"
    and "key_list self w = [k]"
    and "fst (mkdtemp (prepare self w)) = Inr d"
  shows "commands (trace (snd (snd (install_step sh self w)))) =
           commands (trace w)
           @ [preinstallopts (cfg (with_java_options self)) @ '' ''
              @ path_join (start_dir (cfg self)) [''install'']
              @ '' -v -tmpdir '' @ d @ '' -inputFile '' @ configfile self
              @ '' -fileInstallationKey '' @ k @ '' '' @ installopts (cfg self)]
     \<and> preinstallopts (cfg (with_java_options self)) =
           (if sublist ''_JAVA_OPTIONS'' (preinstallopts (cfg self))
            then preinstallopts (cfg self)
            else ''export _JAVA_OPTIONS='' @ [dq] @ java_options (cfg self) @ [dq] @ '' && ''
                   @ preinstallopts (cfg self))
     \<and> \<not> path_exists w d
     \<and> d \<in> dirs (snd (snd (install_step sh self w)))"
proof -
  let ?w' = "snd (snd (install_step sh self w))"
  let ?src = "path_join (start_dir (cfg self)) [''install'']"
  from assms(1) have "\<not> version_ge (version self) ''2020a''" by (simp add: version_lt_iff)
  from install_step_script[OF this assms(3), of sh] obtain n where
    fresh: "\<not> path_exists w d" and dirs: "dirs ?w' = insert d (dirs w)"
    and n: "n \<le> length (key_list self w)" "key_list self w \<noteq> [] \<longrightarrow> 0 < n"
    and cmds: "commands (trace ?w') = commands (trace w)
        @ map (script_command (with_java_options self) ?src (''-tmpdir '' @ d))
            (take n (key_list self w))"
    by blast
  from n assms(2) have "n = 1" by simp
  with cmds assms(2) have "commands (trace ?w') = commands (trace w)
        @ [script_command (with_java_options self) ?src (''-tmpdir '' @ d) k]" by simp
  then have c: "commands (trace ?w') = commands (trace w)
        @ [preinstallopts (cfg (with_java_options self)) @ '' '' @ ?src
           @ '' -v -tmpdir '' @ d @ '' -inputFile '' @ configfile self
           @ '' -fileInstallationKey '' @ k @ '' '' @ installopts (cfg self)]"
    by (simp add: script_command_def with_java_options_fields)
  have p: "preinstallopts (cfg (with_java_options self)) =
           (if sublist ''_JAVA_OPTIONS'' (preinstallopts (cfg self))
            then preinstallopts (cfg self)
            else ''export _JAVA_OPTIONS='' @ [dq] @ java_options (cfg self) @ [dq] @ '' && ''
                   @ preinstallopts (cfg self))"
    by (simp add: with_java_options_def)
  from dirs have "d \<in> dirs ?w'" by simp
  with c p fresh show ?thesis by blast
qed

theorem script_command_single_key_witness:
  "version_lt (version (init (sample_config\<lparr>key := Some (KeyString ''AAAA'')\<rparr>)
       ''/build'' ''/apps/matlab'' ''2019b'')) ''2020a''
   \<and> key_list (init (sample_config\<lparr>key := Some (KeyString ''AAAA'')\<rparr>)
       ''/build'' ''/apps/matlab'' ''2019b'') sample_world = [''AAAA'']
   \<and> fst (mkdtemp (prepare (init (sample_config\<lparr>key := Some (KeyString ''AAAA'')\<rparr>)
       ''/build'' ''/apps/matlab'' ''2019b'') sample_world)) = Inr ''/tmp/tmp''
   \<and> commands (trace (snd (snd (install_step sample_shell
         (init (sample_config\<lparr>key := Some (KeyString ''AAAA'')\<rparr>)
            ''/build'' ''/apps/matlab'' ''2019b'') sample_world))))
       = [''export _JAVA_OPTIONS='' @ [dq] @ ''-Xmx256m'' @ [dq]
            @ '' &&  /src/install -v -tmpdir /tmp/tmp -inputFile /build/my_installer_input.txt''
            @ '' -fileInstallationKey AAAA -x'']"
proof -
  let ?self = "init (sample_config\<lparr>key := Some (KeyString ''AAAA'')\<rparr>)
       ''/build'' ''/apps/matlab'' ''2019b''"
  have v: "version_lt (version ?self) ''2020a''"
    by (simp add: init_def version_defs)
  have k: "key_list ?self sample_world = [''AAAA'']"
    by (simp add: init_def sample_config_def key_list_def)
  note d = sample_mkdtemp [of "sample_config\<lparr>key := Some (KeyString ''AAAA'')\<rparr>" "''2019b''"]
  from script_command_single_key [OF v k d, of sample_shell]
  have "commands (trace (snd (snd (install_step sample_shell ?self sample_world)))) =
           commands (trace sample_world)
           @ [preinstallopts (cfg (with_java_options ?self)) @ '' ''
              @ path_join (start_dir (cfg ?self)) [''install'']
              @ '' -v -tmpdir '' @ ''/tmp/tmp'' @ '' -inputFile '' @ configfile ?self
              @ '' -fileInstallationKey '' @ ''AAAA'' @ '' '' @ installopts (cfg ?self)]"
    by blast
  then have "commands (trace (snd (snd (install_step sample_shell ?self sample_world))))
       = [''export _JAVA_OPTIONS='' @ [dq] @ ''-Xmx256m'' @ [dq]
            @ '' &&  /src/install -v -tmpdir /tmp/tmp -inputFile /build/my_installer_input.txt''
            @ '' -fileInstallationKey AAAA -x'']"
    by (simp add: sample_defs with_java_options_def)
  with v k d show ?thesis by blast
qed

text \<open>
  Claim C8, as amended. In the script method (version below "2020a") the install step
  creates one temporary directory, which did not exist before, ahead of the loop, and every
  invocation of the loop passes this same directory; no other directory is created.
\<close>

theorem one_tmpdir_for_all_keys:
  assumes "version_lt (version self) ''2020a''"
    and "fst (mkdtemp (prepare self w)) = Inr d"
  shows "\<not> path_exists w d
     \<and> dirs (snd (snd (install_step sh self w))) = insert d (dirs w)
     \<and> (\<exists>n\<le>length (key_list self w).
          commands (trace (snd (snd (install_step sh self w)))) =
            commands (trace w)
            @ map (script_command (with_java_options self)
                     (path_join (start_dir (cfg self)) [''install'']) (''-tmpdir '' @ d))
                (take n (key_list self w))
          \<and> (fst (install_step sh self w) = Inr () \<longrightarrow> n = length (key_list self w)))"
proof -
  from assms(1) have "\<not> version_ge (version self) ''2020a''" by (simp add: version_lt_iff)
  from install_step_script[OF this assms(2), of sh] show ?thesis by blast
qed

theorem one_tmpdir_for_all_keys_witness:
  "version_lt (version (init sample_config ''/build'' ''/apps/matlab'' ''2019b'')) ''2020a''
   \<and> fst (mkdtemp (prepare (init sample_config ''/build'' ''/apps/matlab'' ''2019b'') sample_world))
       = Inr ''/tmp/tmp''
   \<and> \<not> path_exists sample_world ''/tmp/tmp''
   \<and> dirs (snd (snd (install_step sample_shell
         (init sample_config ''/build'' ''/apps/matlab'' ''2019b'') sample_world))) = {''/tmp/tmp''}"
proof -
  have v: "version_lt (version (init sample_config ''/build'' ''/apps/matlab'' ''2019b'')) ''2020a''"
    by (simp add: init_def version_defs)
  note d = sample_mkdtemp [of sample_config "''2019b''"]
  from one_tmpdir_for_all_keys [OF v d, of sample_shell]
  have "\<not> path_exists sample_world ''/tmp/tmp''"
    and "dirs (snd (snd (install_step sample_shell
         (init sample_config ''/build'' ''/apps/matlab'' ''2019b'') sample_world)))
       = insert ''/tmp/tmp'' (dirs sample_world)" by blast+
  then have "\<not> path_exists sample_world ''/tmp/tmp''"
    and "dirs (snd (snd (install_step sample_shell
         (init sample_config ''/build'' ''/apps/matlab'' ''2019b'') sample_world))) = {''/tmp/tmp''}"
    by (simp_all add: sample_world_def)
  with v d show ?thesis by blast
qed

text \<open>
  The claim as it was stated asks for a new directory for each key. With the two keys
  "AAAA" and "BBBB" both commands name the directory \<^verbatim>\<open>/tmp/tmp\<close>, the only one created.
\<close>

theorem shared_tmpdir_counterexample:
  "version_lt (version (init sample_config ''/build'' ''/apps/matlab'' ''2019b'')) ''2020a''
   \<and> key_list (init sample_config ''/build'' ''/apps/matlab'' ''2019b'') sample_world
       = [''AAAA'', ''BBBB'']
   \<and> commands (trace (snd (snd (install_step sample_shell
         (init sample_config ''/build'' ''/apps/matlab'' ''2019b'') sample_world))))
       = [''export _JAVA_OPTIONS='' @ [dq] @ ''-Xmx256m'' @ [dq]
            @ '' &&  /src/install -v -tmpdir /tmp/tmp -inputFile /build/my_installer_input.txt''
            @ '' -fileInstallationKey AAAA -x'',
          ''export _JAVA_OPTIONS='' @ [dq] @ ''-Xmx256m'' @ [dq]
            @ '' &&  /src/install -v -tmpdir /tmp/tmp -inputFile /build/my_installer_input.txt''
            @ '' -fileInstallationKey BBBB -x'']
   \<and> dirs (snd (snd (install_step sample_shell
         (init sample_config ''/build'' ''/apps/matlab'' ''2019b'') sample_world))) = {''/tmp/tmp''}"
  by (simp add: sample_defs run_defs version_defs Let_def)

subsection \<open>The loop: what follows an invocation\<close>

lemma install_keys_append:
  "install_keys sh self src tmpdir tcf (xs @ ys) w =
     (case install_keys sh self src tmpdir tcf xs w of
        (Inl e, t, w') \<Rightarrow> (Inl e, t, w')
      | (Inr u, t, w') \<Rightarrow> install_keys sh self src tmpdir t ys w')"
  by (induction xs arbitrary: tcf w) (auto split: prod.splits sum.splits)

lemma binary_installer_method_commands:
  "binary_installer_method sh self src tcf k w = (Inr (cmd, out), tcf', w') \<Longrightarrow>
     commands (trace w') = commands (trace w) @ [cmd]"
proof -
  assume a: "binary_installer_method sh self src tcf k w = (Inr (cmd, out), tcf', w')"
  obtain r w1 where t: "NamedTemporaryFile w = (r, w1)" by (cases "NamedTemporaryFile w")
  show ?thesis
  proof (cases r)
    case (Inl e)
    with a t show ?thesis
      by (auto simp: binary_installer_method_def split: error.splits option.splits)
  next
    case (Inr p)
    from NamedTemporaryFile_result[OF t[unfolded Inr]] obtain m where
      w1: "w1 = w\<lparr>files := (files w)(p \<mapsto> []), drawn := m\<rparr>" by blast
    from a t Inr w1 show ?thesis
      by (auto simp: binary_installer_method_def Let_def run_cmd_def write_file_def unlink_def
          commands_append split: option.splits sum.splits error.splits)
  qed
qed

lemma invoke_installer_commands:
  "invoke_installer sh self src tmpdir tcf k w = (Inr (cmd, out), tcf', w') \<Longrightarrow>
     commands (trace w') = commands (trace w) @ [cmd]"
  by (auto simp: invoke_installer_def binary_installer_method_commands script_installer_method_def
      run_cmd_def Let_def commands_append split: if_splits sum.splits prod.splits)

text \<open>
  Claim C1. Take a run of the loop over the keys \<open>ks1 @ k # ks2\<close> in which the passes for
  \<open>ks1\<close> went through and the invocation for \<open>k\<close> ran the command \<open>cmd\<close> and captured
  the output \<open>out\<close>. If \<open>out\<close> contains "Error: You have entered an invalid File
  Installation Key", letters compared without their case, the run ends with the fatal error
  whose message carries the pattern, the whole command and the whole output; its final
  state is the state right after that invocation, whatever \<open>ks2\<close> is, so no later key is
  attempted, and \<open>cmd\<close> is the last command that was run.
\<close>

theorem invalid_key_aborts:
  assumes "install_keys sh self src tmpdir tcf ks1 w = (Inr (), tcf1, w1)"
    and "invoke_installer sh self src tmpdir tcf1 k w1 = (Inr (cmd, out), tcf2, w2)"
    and "search_ignorecase ''Error: You have entered an invalid File Installation Key'' out"
  shows "install_keys sh self src tmpdir tcf (ks1 @ k # ks2) w =
           (Inl (EasyBuildError
              (''Found error pattern '' @ [sq]
               @ ''Error: You have entered an invalid File Installation Key'' @ [sq]
               @ '' in output of installation command '' @ [sq] @ cmd @ [sq] @ '': '' @ out)),
            tcf2, w2)
     \<and> commands (trace w2) = commands (trace w1) @ [cmd]"
proof -
  from assms(2,3) have "install_key sh self src tmpdir tcf1 k w1 =
      (Inl (found_error_pattern ''Error: You have entered an invalid File Installation Key''
         cmd out), tcf2, w2)"
    by (simp add: install_key_def patterns_def)
  then have "install_keys sh self src tmpdir tcf1 (k # ks2) w1 =
      (Inl (found_error_pattern ''Error: You have entered an invalid File Installation Key''
         cmd out), tcf2, w2)" by simp
  with assms(1) have "install_keys sh self src tmpdir tcf (ks1 @ k # ks2) w =
      (Inl (found_error_pattern ''Error: You have entered an invalid File Installation Key''
         cmd out), tcf2, w2)"
    by (simp add: install_keys_append)
  moreover from assms(2) have "commands (trace w2) = commands (trace w1) @ [cmd]"
    by (rule invoke_installer_commands)
  ultimately show ?thesis by (simp add: found_error_pattern_def)
qed

theorem invalid_key_aborts_witness:
  "install_keys picky_shell (init sample_config ''/build'' ''/apps/matlab'' ''2019b'')
       ''/src/install'' ''-tmpdir /tmp/tmp'' None [''AAAA''] sample_world
     = (Inr (), None,
        sample_world\<lparr>trace := [Run (script_command
          (init sample_config ''/build'' ''/apps/matlab'' ''2019b'')
          ''/src/install'' ''-tmpdir /tmp/tmp'' ''AAAA'')]\<rparr>)
   \<and> invoke_installer picky_shell (init sample_config ''/build'' ''/apps/matlab'' ''2019b'')
       ''/src/install'' ''-tmpdir /tmp/tmp'' None ''BBBB''
       (sample_world\<lparr>trace := [Run (script_command
          (init sample_config ''/build'' ''/apps/matlab'' ''2019b'')
          ''/src/install'' ''-tmpdir /tmp/tmp'' ''AAAA'')]\<rparr>)
     = (Inr (script_command (init sample_config ''/build'' ''/apps/matlab'' ''2019b'')
               ''/src/install'' ''-tmpdir /tmp/tmp'' ''BBBB'',
             ''ERROR: you have entered an invalid file installation key.''),
        None,
        sample_world\<lparr>trace :=
          [Run (script_command (init sample_config ''/build'' ''/apps/matlab'' ''2019b'')
                  ''/src/install'' ''-tmpdir /tmp/tmp'' ''AAAA''),
           Run (script_command (init sample_config ''/build'' ''/apps/matlab'' ''2019b'')
                  ''/src/install'' ''-tmpdir /tmp/tmp'' ''BBBB'')]\<rparr>)
   \<and> search_ignorecase ''Error: You have entered an invalid File Installation Key''
         ''ERROR: you have entered an invalid file installation key.''
   \<and> install_keys picky_shell (init sample_config ''/build'' ''/apps/matlab'' ''2019b'')
       ''/src/install'' ''-tmpdir /tmp/tmp'' None [''AAAA'', ''BBBB'', ''CCCC''] sample_world
     = (Inl (EasyBuildError
              (''Found error pattern '' @ [sq]
               @ ''Error: You have entered an invalid File Installation Key'' @ [sq]
               @ '' in output of installation command '' @ [sq]
               @ script_command (init sample_config ''/build'' ''/apps/matlab'' ''2019b'')
                   ''/src/install'' ''-tmpdir /tmp/tmp'' ''BBBB''
               @ [sq] @ '': '' @ ''ERROR: you have entered an invalid file installation key.'')),
        None,
        sample_world\<lparr>trace :=
          [Run (script_command (init sample_config ''/build'' ''/apps/matlab'' ''2019b'')
                  ''/src/install'' ''-tmpdir /tmp/tmp'' ''AAAA''),
           Run (script_command (init sample_config ''/build'' ''/apps/matlab'' ''2019b'')
                  ''/src/install'' ''-tmpdir /tmp/tmp'' ''BBBB'')]\<rparr>)"
proof -
  let ?self = "init sample_config ''/build'' ''/apps/matlab'' ''2019b''"
  let ?cA = "script_command ?self ''/src/install'' ''-tmpdir /tmp/tmp'' ''AAAA''"
  let ?cB = "script_command ?self ''/src/install'' ''-tmpdir /tmp/tmp'' ''BBBB''"
  let ?out = "''ERROR: you have entered an invalid file installation key.''"
  have v: "\<not> version_ge (version ?self) ''2020a''"
    by (simp add: init_def version_defs)
  have nA: "\<not> sublist ''BBBB'' ?cA"
    by (simp add: script_command_def init_def sample_config_def sublist_code
        path_join_def path_join2_def)
  have yB: "sublist ''BBBB'' ?cB"
    by (simp add: script_command_def init_def sample_config_def sublist_code
        path_join_def path_join2_def)
  have ok: "\<not> search_ignorecase ''Error: You have entered an invalid File Installation Key''
      ''done''"
    by (simp add: search_ignorecase_def lower_char_def sublist_code)
  have bad: "search_ignorecase ''Error: You have entered an invalid File Installation Key'' ?out"
    by (simp add: search_ignorecase_def lower_char_def sublist_code)
  have h1: "install_keys picky_shell ?self ''/src/install'' ''-tmpdir /tmp/tmp'' None [''AAAA'']
      sample_world = (Inr (), None, sample_world\<lparr>trace := [Run ?cA]\<rparr>)"
    using v nA ok
    by (simp add: install_key_def invoke_installer_def script_installer_method_def run_cmd_def
        picky_shell_def patterns_def Let_def sample_world_def)
  have h2: "invoke_installer picky_shell ?self ''/src/install'' ''-tmpdir /tmp/tmp'' None ''BBBB''
      (sample_world\<lparr>trace := [Run ?cA]\<rparr>)
      = (Inr (?cB, ?out), None, sample_world\<lparr>trace := [Run ?cA, Run ?cB]\<rparr>)"
    using v yB
    by (simp add: invoke_installer_def script_installer_method_def run_cmd_def
        picky_shell_def Let_def sample_world_def)
  from invalid_key_aborts [OF h1 h2 bad, of "[''CCCC'']"] h1 h2 bad show ?thesis by simp
qed

text \<open>
  A pass of the loop under the framework's \<^verbatim>\<open>run_cmd\<close>: \<open>cmd\<close> is the command of the pass
  and \<open>wr\<close> the state in which it is run, by the script method or by the input-file method.
\<close>

lemma install_key_run_cmd_log_all:
  assumes "version_lt (version self) ''2020a'' \<and> wr = w \<and> cmd = script_command self src tmpdir k
      \<or> version_ge (version self) ''2020a'' \<and> NamedTemporaryFile w = (Inr p, w1)
          \<and> files w1 (configfile self) = Some template
          \<and> wr = write_file p (key_variant template k) w1 \<and> cmd = binary_command self src p"
  shows "fst (install_key (run_cmd_log_all st inst) self src tmpdir tcf k w) =
     (case parse_cmd_output st cmd (fst (inst wr cmd)) (snd (inst wr cmd)) of
        Raised e \<Rightarrow> Inl e
      | Returned out ec \<Rightarrow> check_output patterns cmd out)"
  using assms
proof
  assume a: "version_lt (version self) ''2020a'' \<and> wr = w \<and> cmd = script_command self src tmpdir k"
  then have v: "\<not> version_ge (version self) ''2020a''" by (simp add: version_lt_iff)
  from a v show ?thesis
    by (simp add: install_key_def invoke_installer_def script_installer_method_def run_cmd_def
        run_cmd_log_all_def Let_def split: prod.splits cmd_result.splits sum.splits)
next
  assume a: "version_ge (version self) ''2020a'' \<and> NamedTemporaryFile w = (Inr p, w1)
          \<and> files w1 (configfile self) = Some template
          \<and> wr = write_file p (key_variant template k) w1 \<and> cmd = binary_command self src p"
  then show ?thesis
    by (auto simp: install_key_def invoke_installer_def binary_installer_method_def run_cmd_def
        run_cmd_log_all_def Let_def parse_cmd_output_def exit_code_error_def
        split: prod.splits cmd_result.splits sum.splits error.splits)
qed

lemmas log_all_defs =
  run_cmd_log_all_def parse_cmd_output_def exit_code_error_def str_int_def str_nat.simps
  failing_installer_def picky_installer_def

text \<open>
  Claim C3, as amended. Take an invocation of the loop: the command \<open>cmd\<close> of the pass, run
  in the state \<open>wr\<close>, where the installer printed \<open>out\<close> and ended with the exit code
  \<open>ec\<close>. The install step calls \<^verbatim>\<open>run_cmd\<close> with \<^verbatim>\<open>log_all=True\<close>, so unless the strictness
  of the framework is \<^verbatim>\<open>ignore\<close>, a non-zero exit code alone makes the pass fail, with the
  error that names the command, the exit code and the output. Under the default strictness
  \<^verbatim>\<open>warn\<close> with the exit code 0, and under \<^verbatim>\<open>ignore\<close> with any exit code, the pass raises
  the fatal error exactly when \<open>out\<close> matches the invalid-key pattern, and goes through
  otherwise. So under \<^verbatim>\<open>warn\<close> the pass fails if and only if the exit code is not 0 or the
  output matches; only under \<^verbatim>\<open>ignore\<close> does the exit code play no part.
\<close>

theorem nonzero_exit_is_fatal:
  assumes "version_lt (version self) ''2020a'' \<and> wr = w \<and> cmd = script_command self src tmpdir k
      \<or> version_ge (version self) ''2020a'' \<and> NamedTemporaryFile w = (Inr p, w1)
          \<and> files w1 (configfile self) = Some template
          \<and> wr = write_file p (key_variant template k) w1 \<and> cmd = binary_command self src p"
    and "inst wr cmd = (out, ec)"
  shows "(st \<noteq> IGNORE \<and> ec \<noteq> 0 \<longrightarrow>
            fst (install_key (run_cmd_log_all st inst) self src tmpdir tcf k w)
              = Inl (EasyBuildError (''cmd '' @ [dq] @ cmd @ [dq] @ '' exited with exit code ''
                       @ str_int ec @ '' and output:'' @ [nl] @ out)))
     \<and> (st = IGNORE \<or> st = WARN \<and> ec = 0 \<longrightarrow>
            fst (install_key (run_cmd_log_all st inst) self src tmpdir tcf k w)
              = (if search_ignorecase
                      ''Error: You have entered an invalid File Installation Key'' out
                 then Inl (EasyBuildError
                        (''Found error pattern '' @ [sq]
                         @ ''Error: You have entered an invalid File Installation Key'' @ [sq]
                         @ '' in output of installation command '' @ [sq] @ cmd @ [sq] @ '': ''
                         @ out))
                 else Inr ()))"
  using install_key_run_cmd_log_all[OF assms(1), of st inst tcf] assms(2)
  by (auto simp: parse_cmd_output_def exit_code_error_def patterns_def found_error_pattern_def)

theorem nonzero_exit_is_fatal_witness:
  "version_lt (version (init sample_config ''/build'' ''/apps/matlab'' ''2019b'')) ''2020a''
   \<and> failing_installer sample_world
         '' /src/install -v -tmpdir /tmp/tmp -inputFile /build/my_installer_input.txt -fileInstallationKey AAAA -x''
       = (''done'', 1)
   \<and> \<not> search_ignorecase ''Error: You have entered an invalid File Installation Key'' ''done''
   \<and> fst (install_key (run_cmd_log_all WARN failing_installer)
           (init sample_config ''/build'' ''/apps/matlab'' ''2019b'')
           ''/src/install'' ''-tmpdir /tmp/tmp'' None ''AAAA'' sample_world)
       = Inl (EasyBuildError (''cmd '' @ [dq]
           @ '' /src/install -v -tmpdir /tmp/tmp -inputFile /build/my_installer_input.txt -fileInstallationKey AAAA -x''
           @ [dq] @ '' exited with exit code 1 and output:'' @ [nl] @ ''done''))
   \<and> fst (install_key (run_cmd_log_all IGNORE failing_installer)
           (init sample_config ''/build'' ''/apps/matlab'' ''2019b'')
           ''/src/install'' ''-tmpdir /tmp/tmp'' None ''AAAA'' sample_world)
       = Inr ()
   \<and> picky_installer sample_world
         '' /src/install -v -tmpdir /tmp/tmp -inputFile /build/my_installer_input.txt -fileInstallationKey BBBB -x''
       = (''ERROR: you have entered an invalid file installation key.'', 0)
   \<and> search_ignorecase ''Error: You have entered an invalid File Installation Key''
         ''ERROR: you have entered an invalid file installation key.''
   \<and> fst (install_key (run_cmd_log_all WARN picky_installer)
           (init sample_config ''/build'' ''/apps/matlab'' ''2019b'')
           ''/src/install'' ''-tmpdir /tmp/tmp'' None ''BBBB'' sample_world)
       = Inl (EasyBuildError (''Found error pattern '' @ [sq]
           @ ''Error: You have entered an invalid File Installation Key'' @ [sq]
           @ '' in output of installation command '' @ [sq]
           @ '' /src/install -v -tmpdir /tmp/tmp -inputFile /build/my_installer_input.txt -fileInstallationKey BBBB -x''
           @ [sq] @ '': '' @ ''ERROR: you have entered an invalid file installation key.''))
   \<and> version_ge (version (init sample_config ''/build'' ''/apps/matlab'' ''2020b'')) ''2020a''
   \<and> fst (NamedTemporaryFile sample_world) = Inr ''/tmp/tmp''
   \<and> picky_installer
         (write_file ''/tmp/tmp'' (''fileInstallationKey=AAAA'' @ [nl])
            (snd (NamedTemporaryFile sample_world)))
         '' /src/install -inputFile /tmp/tmp -x''
       = (''done'', 0)
   \<and> fst (install_key (run_cmd_log_all WARN picky_installer)
           (init sample_config ''/build'' ''/apps/matlab'' ''2020b'')
           ''/src/install'' ''-tmpdir /tmp/tmp'' None ''AAAA'' sample_world)
       = Inr ()"
proof -
  let ?old = "init sample_config ''/build'' ''/apps/matlab'' ''2019b''"
  let ?new = "init sample_config ''/build'' ''/apps/matlab'' ''2020b''"
  let ?pat = "''Error: You have entered an invalid File Installation Key''"
  let ?cA = "'' /src/install -v -tmpdir /tmp/tmp -inputFile /build/my_installer_input.txt -fileInstallationKey AAAA -x''"
  let ?cB = "'' /src/install -v -tmpdir /tmp/tmp -inputFile /build/my_installer_input.txt -fileInstallationKey BBBB -x''"
  let ?cN = "'' /src/install -inputFile /tmp/tmp -x''"
  let ?bad = "''ERROR: you have entered an invalid file installation key.''"
  let ?w1 = "snd (NamedTemporaryFile sample_world)"
  let ?wr = "write_file ''/tmp/tmp'' (''fileInstallationKey=AAAA'' @ [nl]) ?w1"
  have v: "version_lt (version ?old) ''2020a''"
    by (simp add: init_def version_defs)
  have v': "version_ge (version ?new) ''2020a''"
    by (simp add: init_def version_defs)
  have cA: "script_command ?old ''/src/install'' ''-tmpdir /tmp/tmp'' ''AAAA'' = ?cA"
    by (simp add: script_command_def init_def sample_config_def path_join_def path_join2_def)
  have cB: "script_command ?old ''/src/install'' ''-tmpdir /tmp/tmp'' ''BBBB'' = ?cB"
    by (simp add: script_command_def init_def sample_config_def path_join_def path_join2_def)
  have cN: "binary_command ?new ''/src/install'' ''/tmp/tmp'' = ?cN"
    by (simp add: binary_command_def init_def sample_config_def)
  have fA: "failing_installer sample_world ?cA = (''done'', 1)"
    by (simp add: failing_installer_def)
  have pB: "picky_installer sample_world ?cB = (?bad, 0)"
    by (simp add: picky_installer_def sublist_code)
  have pN: "picky_installer ?wr ?cN = (''done'', 0)"
    by (simp add: picky_installer_def sublist_code)
  have ok: "\<not> search_ignorecase ?pat ''done''"
    by (simp add: search_ignorecase_def lower_char_def sublist_code)
  have bad: "search_ignorecase ?pat ?bad"
    by (simp add: search_ignorecase_def lower_char_def sublist_code)
  have t': "fst (NamedTemporaryFile sample_world) = Inr ''/tmp/tmp''"
    by (simp add: NamedTemporaryFile_def TMP_MAX_def fresh_path.simps path_exists_def
        sample_world_def)
  then have t: "NamedTemporaryFile sample_world = (Inr ''/tmp/tmp'', ?w1)"
    by (simp add: prod_eq_iff)
  have base: "files ?w1 (configfile ?new) = Some (''# fileInstallationKey='' @ [nl])"
    by (simp add: NamedTemporaryFile_def TMP_MAX_def fresh_path.simps path_exists_def
        sample_world_def init_def path_join_def path_join2_def)
  have kv: "key_variant (''# fileInstallationKey='' @ [nl]) ''AAAA''
      = ''fileInstallationKey=AAAA'' @ [nl]"
    by (simp add: key_variant_def replace.simps)
  have h1: "version_lt (version ?old) ''2020a'' \<and> sample_world = sample_world
        \<and> ?cA = script_command ?old ''/src/install'' ''-tmpdir /tmp/tmp'' ''AAAA''
      \<or> version_ge (version ?old) ''2020a'' \<and> NamedTemporaryFile sample_world = (Inr [], sample_world)
          \<and> files sample_world (configfile ?old) = Some []
          \<and> sample_world = write_file [] (key_variant [] ''AAAA'') sample_world
          \<and> ?cA = binary_command ?old ''/src/install'' []"
    using v cA by simp
  have h2: "version_lt (version ?old) ''2020a'' \<and> sample_world = sample_world
        \<and> ?cB = script_command ?old ''/src/install'' ''-tmpdir /tmp/tmp'' ''BBBB''
      \<or> version_ge (version ?old) ''2020a'' \<and> NamedTemporaryFile sample_world = (Inr [], sample_world)
          \<and> files sample_world (configfile ?old) = Some []
          \<and> sample_world = write_file [] (key_variant [] ''BBBB'') sample_world
          \<and> ?cB = binary_command ?old ''/src/install'' []"
    using v cB by simp
  have h3: "version_lt (version ?new) ''2020a'' \<and> ?wr = sample_world
        \<and> ?cN = script_command ?new ''/src/install'' ''-tmpdir /tmp/tmp'' ''AAAA''
      \<or> version_ge (version ?new) ''2020a''
          \<and> NamedTemporaryFile sample_world = (Inr ''/tmp/tmp'', ?w1)
          \<and> files ?w1 (configfile ?new) = Some (''# fileInstallationKey='' @ [nl])
          \<and> ?wr = write_file ''/tmp/tmp'' (key_variant (''# fileInstallationKey='' @ [nl]) ''AAAA'') ?w1
          \<and> ?cN = binary_command ?new ''/src/install'' ''/tmp/tmp''"
    using v' t base kv cN by simp
  from nonzero_exit_is_fatal [where inst = failing_installer and st = WARN and tcf = None, OF h1 fA]
  have r1: "fst (install_key (run_cmd_log_all WARN failing_installer) ?old
           ''/src/install'' ''-tmpdir /tmp/tmp'' None ''AAAA'' sample_world)
       = Inl (EasyBuildError (''cmd '' @ [dq] @ ?cA
           @ [dq] @ '' exited with exit code 1 and output:'' @ [nl] @ ''done''))"
    by (simp add: str_int_def str_nat.simps)
  from nonzero_exit_is_fatal [where inst = failing_installer and st = IGNORE and tcf = None, OF h1 fA] ok
  have r2: "fst (install_key (run_cmd_log_all IGNORE failing_installer) ?old
           ''/src/install'' ''-tmpdir /tmp/tmp'' None ''AAAA'' sample_world) = Inr ()"
    by simp
  from nonzero_exit_is_fatal [where inst = picky_installer and st = WARN and tcf = None, OF h2 pB] bad
  have r3: "fst (install_key (run_cmd_log_all WARN picky_installer) ?old
           ''/src/install'' ''-tmpdir /tmp/tmp'' None ''BBBB'' sample_world)
       = Inl (EasyBuildError (''Found error pattern '' @ [sq] @ ?pat @ [sq]
           @ '' in output of installation command '' @ [sq] @ ?cB @ [sq] @ '': '' @ ?bad))"
    by simp
  from nonzero_exit_is_fatal [where inst = picky_installer and st = WARN and tcf = None
      and tmpdir = "''-tmpdir /tmp/tmp''", OF h3 pN] ok
  have r4: "fst (install_key (run_cmd_log_all WARN picky_installer) ?new
           ''/src/install'' ''-tmpdir /tmp/tmp'' None ''AAAA'' sample_world) = Inr ()"
    by simp
  from v fA ok r1 r2 pB bad r3 v' t' pN r4 show ?thesis by blast
qed

text \<open>
  The claim as it was stated says that a non-zero exit code alone never makes the install
  step fail. With the default strictness, an installer that prints "done" and ends with the
  exit code 1 makes the step fail at the first key, although "done" does not match the
  pattern; the second key is not attempted.
\<close>

theorem nonzero_exit_counterexample:
  "failing_installer (snd (mkdtemp (prepare
         (init sample_config ''/build'' ''/apps/matlab'' ''2019b'') sample_world)))
       (''export _JAVA_OPTIONS='' @ [dq] @ ''-Xmx256m'' @ [dq]
          @ '' &&  /src/install -v -tmpdir /tmp/tmp -inputFile /build/my_installer_input.txt''
          @ '' -fileInstallationKey AAAA -x'')
     = (''done'', 1)
   \<and> \<not> search_ignorecase ''Error: You have entered an invalid File Installation Key'' ''done''
   \<and> fst (install_step (run_cmd_log_all WARN failing_installer)
           (init sample_config ''/build'' ''/apps/matlab'' ''2019b'') sample_world)
       = Inl (EasyBuildError (''cmd '' @ [dq] @ ''export _JAVA_OPTIONS='' @ [dq] @ ''-Xmx256m''
           @ [dq]
           @ '' &&  /src/install -v -tmpdir /tmp/tmp -inputFile /build/my_installer_input.txt''
           @ '' -fileInstallationKey AAAA -x''
           @ [dq] @ '' exited with exit code 1 and output:'' @ [nl] @ ''done''))
   \<and> commands (trace (snd (snd (install_step (run_cmd_log_all WARN failing_installer)
           (init sample_config ''/build'' ''/apps/matlab'' ''2019b'') sample_world))))
       = [''export _JAVA_OPTIONS='' @ [dq] @ ''-Xmx256m'' @ [dq]
            @ '' &&  /src/install -v -tmpdir /tmp/tmp -inputFile /build/my_installer_input.txt''
            @ '' -fileInstallationKey AAAA -x'']"
  by (simp add: sample_defs run_defs version_defs log_all_defs Let_def)

subsection \<open>Replacing a text by another (\<^verbatim>\<open>str.replace\<close>)\<close>

lemma replace_Nil: "old \<noteq> [] \<Longrightarrow> replace old new [] = []"
  by (simp add: replace.simps)

lemma replace_match:
  "old \<noteq> [] \<Longrightarrow> replace old new (old @ s) = new @ replace old new s"
  by (subst replace.simps) simp

lemma replace_step:
  "old \<noteq> [] \<Longrightarrow> \<not> prefix old (c # cs) \<Longrightarrow> replace old new (c # cs) = c # replace old new cs"
  by (subst replace.simps) simp

lemma replace_cases:
  obtains (empty) "s = []"
    | (match) t where "s = old @ t"
    | (step) c cs where "s = c # cs" "\<not> prefix old s"
  by (cases s) (auto simp: prefix_def)

text \<open>An occurrence that begins inside \<open>a\<close> ends inside \<open>a\<close> when \<open>old\<close> has no border.\<close>

lemma prefix_append_unbordered:
  assumes "prefix old (a @ old @ b)" and "hd old \<notin> set (tl old)" and "a \<noteq> []"
  shows "prefix old a"
proof (rule ccontr)
  assume n: "\<not> prefix old a"
  from assms(1) n obtain u where old: "old = a @ u" and u: "u \<noteq> []"
    and p: "prefix u (old @ b)"
    by (metis append.right_neutral prefix_append prefix_def)
  from p u have "hd u = hd (old @ b)"
    by (cases u) (auto simp: prefix_def)
  moreover from old assms(3) have "old \<noteq> []" by simp
  ultimately have "hd u = hd old" by simp
  moreover from old u assms(3) have "hd u \<in> set (tl old)"
    by (cases a; cases u) auto
  ultimately show False using assms(2) by simp
qed

lemma replace_append_occurrence:
  assumes "old \<noteq> []" and "hd old \<notin> set (tl old)"
  shows "replace old new (a @ old @ b) = replace old new a @ new @ replace old new b"
proof (induction a rule: length_induct)
  case (1 a)
  show ?case
  proof (cases a)
    case Nil
    with assms(1) show ?thesis by (simp add: replace_match replace_Nil)
  next
    case (Cons c cs)
    show ?thesis
    proof (cases "prefix old (a @ old @ b)")
      case True
      from prefix_append_unbordered[OF True assms(2)] Cons have "prefix old a" by simp
      then obtain t where a: "a = old @ t" by (auto simp: prefix_def)
      with assms(1) have "length t < length a" by simp
      with 1 have "replace old new (t @ old @ b) = replace old new t @ new @ replace old new b"
        by blast
      with a assms(1) show ?thesis by (simp add: replace_match)
    next
      case False
      then have na: "\<not> prefix old a" by (auto simp: prefix_def)
      from Cons 1 have "replace old new (cs @ old @ b)
          = replace old new cs @ new @ replace old new b" by simp
      with False na Cons assms(1) show ?thesis by (simp add: replace_step)
    qed
  qed
qed

lemma replace_absent:
  "old \<noteq> [] \<Longrightarrow> \<not> sublist old s \<Longrightarrow> replace old new s = s"
proof (induction s)
  case Nil
  then show ?case by (simp add: replace_Nil)
next
  case (Cons c cs)
  from Cons.prems(2) have "\<not> prefix old (c # cs)" and "\<not> sublist old cs"
    by (auto simp: sublist_Cons_right)
  with Cons show ?case by (simp add: replace_step)
qed

lemma replace_prefix_kept:
  assumes "old \<noteq> []" and "new \<noteq> []"
  shows "prefix p (replace old new s) \<Longrightarrow> hd new \<notin> set p \<Longrightarrow> prefix p s"
proof (induction p arbitrary: s)
  case Nil
  show ?case by simp
next
  case (Cons x p)
  show ?case
  proof (cases rule: replace_cases[where s=s and old=old])
    case empty
    with Cons.prems assms show ?thesis by (simp add: replace_Nil)
  next
    case (match t)
    with Cons.prems(1) assms have "prefix (x # p) (new @ replace old new t)"
      by (simp add: replace_match)
    with assms(2) have "x = hd new" by (cases new) auto
    with Cons.prems(2) show ?thesis by simp
  next
    case (step c cs)
    with Cons.prems(1) assms have "prefix (x # p) (c # replace old new cs)"
      by (simp add: replace_step)
    then have "x = c" and "prefix p (replace old new cs)" by auto
    with Cons.IH Cons.prems(2) step show ?thesis by simp
  qed
qed

text \<open>A text that is not in \<open>s\<close> and cannot touch an inserted \<open>new\<close> is not in the result.\<close>

lemma replace_keeps_absent:
  assumes "old \<noteq> []" and "new \<noteq> []"
    and "hd new \<notin> set p" and "last new \<notin> set p" and "\<not> sublist p new"
  shows "\<not> sublist p s \<Longrightarrow> \<not> sublist p (replace old new s)"
proof (induction s rule: length_induct)
  case (1 s)
  show ?case
  proof (cases rule: replace_cases[where s=s and old=old])
    case empty
    with 1 assms show ?thesis by (simp add: replace_Nil)
  next
    case (match t)
    with 1(2) have "\<not> sublist p t" by (metis sublist_append_leftI sublist_order.order_trans sublist_appendI append_Nil2 sublist_append)
    with match 1(1) assms(1) have r: "\<not> sublist p (replace old new t)" by simp
    have "\<not> sublist p (new @ replace old new t)"
    proof
      assume "sublist p (new @ replace old new t)"
      with r assms(5) obtain u v where p: "p = u @ v" and u: "suffix u new"
        and v: "prefix v (replace old new t)"
        by (auto simp: sublist_append)
      show False
      proof (cases "u = []")
        case True
        with p v have "prefix p (replace old new t)" by simp
        with r show False by (auto simp: prefix_def)
      next
        case False
        with u assms(2) have "last u = last new" by (auto simp: suffix_def)
        with False p assms(4) show False by (metis Un_iff last_in_set set_append)
      qed
    qed
    with match assms(1) show ?thesis by (simp add: replace_match)
  next
    case (step c cs)
    from 1(2) step have ncs: "\<not> sublist p cs" and npre: "\<not> prefix p (c # cs)"
      by (auto simp: sublist_Cons_right)
    with step 1(1) have r: "\<not> sublist p (replace old new cs)" by simp
    have "\<not> prefix p (c # replace old new cs)"
    proof
      assume a: "prefix p (c # replace old new cs)"
      show False
      proof (cases p)
        case Nil
        with npre show False by simp
      next
        case (Cons x q)
        with a have x: "x = c" and "prefix q (replace old new cs)" by auto
        moreover from Cons assms(3) have "hd new \<notin> set q" by simp
        ultimately have "prefix q cs" using replace_prefix_kept[OF assms(1,2)] by blast
        with x Cons npre show False by simp
      qed
    qed
    with r step assms(1) show ?thesis by (simp add: replace_step sublist_Cons_right)
  qed
qed

lemma replace_removes_marker:
  assumes old: "old = h # m # f # t"
    and new: "new \<noteq> []" "hd new = f" "h \<notin> set new"
    and diff: "m \<noteq> f" "f \<notin> set t"
  shows "\<not> sublist (h # m # old) s \<Longrightarrow> \<not> sublist old (replace old new s)"
proof (induction s rule: length_induct)
  case (1 s)
  from old have ne: "old \<noteq> []" by simp
  show ?case
  proof (cases rule: replace_cases[where s=s and old=old])
    case empty
    with ne show ?thesis by (simp add: replace_Nil)
  next
    case (match t0)
    from 1(2) match have "\<not> sublist (h # m # old) t0"
      by (metis sublist_append)
    with match 1(1) ne have r: "\<not> sublist old (replace old new t0)" by simp
    have "\<not> sublist old (new @ replace old new t0)"
    proof
      assume a: "sublist old (new @ replace old new t0)"
      have "\<not> sublist old new"
      proof
        assume "sublist old new"
        then have "set old \<subseteq> set new" by (rule set_mono_sublist)
        with old new(3) show False by auto
      qed
      with a r obtain u v where p: "old = u @ v" and u: "suffix u new"
        and v: "prefix v (replace old new t0)"
        by (auto simp: sublist_append)
      show False
      proof (cases "u = []")
        case True
        with p v have "prefix old (replace old new t0)" by simp
        with r show False by (auto simp: prefix_def)
      next
        case False
        with p old have "h \<in> set u" by (cases u) auto
        with u new(3) show False by (auto simp: suffix_def)
      qed
    qed
    with match ne show ?thesis by (simp add: replace_match)
  next
    case (step c cs)
    from 1(2) step have ncs: "\<not> sublist (h # m # old) cs"
      by (auto simp: sublist_Cons_right)
    with step 1(1) have r: "\<not> sublist old (replace old new cs)" by simp
    have "\<not> prefix old (c # replace old new cs)"
    proof
      assume "prefix old (c # replace old new cs)"
      with old have c: "c = h" and p1: "prefix (m # f # t) (replace old new cs)" by auto
      show False
      proof (cases rule: replace_cases[where s=cs and old=old])
        case empty
        with p1 ne show False by (simp add: replace_Nil)
      next
        case (match t1)
        with p1 ne have "prefix (m # f # t) (new @ replace old new t1)"
          by (simp add: replace_match)
        with new(1,2) have "m = f" by (cases new) auto
        with diff(1) show False by simp
      next
        case s1: (step c1 cs1)
        with p1 ne have c1: "c1 = m" and p2: "prefix (f # t) (replace old new cs1)"
          by (auto simp: replace_step)
        show False
        proof (cases rule: replace_cases[where s=cs1 and old=old])
          case empty
          with p2 ne show False by (simp add: replace_Nil)
        next
          case (match t2)
          with step(1) s1(1) c c1 have "s = [] @ (h # m # old) @ t2" by simp
          then have "sublist (h # m # old) s" unfolding sublist_def by blast
          with 1(2) show False by simp
        next
          case s2: (step c2 cs2)
          with p2 ne have c2: "c2 = f" and p3: "prefix t (replace old new cs2)"
            by (auto simp: replace_step)
          from new(2) diff(2) have "hd new \<notin> set t" by simp
          with p3 have "prefix t cs2" using replace_prefix_kept[OF ne new(1)] by blast
          with step(1) s1(1) s2(1) c c1 c2 old have "prefix old s" by simp
          with step(2) show False by simp
        qed
      qed
    qed
    with r step ne show ?thesis by (simp add: replace_step sublist_Cons_right)
  qed
qed

lemma split_char_not_Nil: "split_char c s \<noteq> []"
  by (induction s) auto

text \<open>The same function in a form that evaluates a text in one pass.\<close>

lemma split_char_eval:
  "split_char c (x # xs) =
     (if x = c then [] # split_char c xs
      else (case split_char c xs of [] \<Rightarrow> [] | l # ls \<Rightarrow> (x # l) # ls))"
  using split_char_not_Nil[of c xs] by (cases "split_char c xs") auto

lemma split_char_append:
  "c \<notin> set a \<Longrightarrow>
     split_char c (a @ s) = (a @ hd (split_char c s)) # tl (split_char c s)"
  by (induction a) (auto simp: split_char_not_Nil)

lemma prefix_hd_split_char: "prefix (hd (split_char c s)) s"
  by (induction s) auto

lemma split_char_replace:
  assumes "old \<noteq> []" and "c \<notin> set old" and "c \<notin> set new"
  shows "split_char c (replace old new s) = map (replace old new) (split_char c s)"
proof (induction s rule: length_induct)
  case (1 s)
  show ?case
  proof (cases rule: replace_cases[where s=s and old=old])
    case empty
    with assms(1) show ?thesis by (simp add: replace_Nil)
  next
    case (match t)
    with 1 assms(1) have ih: "split_char c (replace old new t)
        = map (replace old new) (split_char c t)" by simp
    have "split_char c (replace old new s)
        = (new @ hd (split_char c (replace old new t))) # tl (split_char c (replace old new t))"
      using match assms by (simp add: replace_match split_char_append)
    also have "\<dots> = (new @ replace old new (hd (split_char c t)))
        # map (replace old new) (tl (split_char c t))"
      using ih split_char_not_Nil[of c t] by (simp add: hd_map map_tl)
    also have "\<dots> = map (replace old new) (split_char c s)"
      using match assms by (simp add: split_char_append replace_match)
    finally show ?thesis .
  next
    case (step x xs)
    with 1 have ih: "split_char c (replace old new xs)
        = map (replace old new) (split_char c xs)" by simp
    show ?thesis
    proof (cases "x = c")
      case True
      with step ih assms(1) show ?thesis by (simp add: replace_step replace_Nil)
    next
      case False
      have "prefix (x # hd (split_char c xs)) s"
        using step(1) prefix_hd_split_char[of c xs] by simp
      with step(2) have "\<not> prefix old (x # hd (split_char c xs))"
        using prefix_order.order_trans by blast
      with assms(1) have "replace old new (x # hd (split_char c xs))
          = x # replace old new (hd (split_char c xs))" by (simp add: replace_step)
      with False step ih assms(1) split_char_not_Nil[of c xs] show ?thesis
        by (simp add: replace_step hd_map map_tl)
    qed
  qed
qed

subsection \<open>The loop with the input-file method\<close>

lemma writes_append: "writes (xs @ ys) = writes xs @ writes ys"
  by (induction xs rule: writes.induct) auto

lemma NamedTemporaryFile_error:
  assumes "NamedTemporaryFile w = (Inl e, w')"
  shows "w' = w\<lparr>drawn := drawn w'\<rparr>"
proof -
  obtain r w1 where f: "fresh_path TMP_MAX w = (r, w1)" by (cases "fresh_path TMP_MAX w")
  from fresh_path_result[OF f] have w1: "w1 = w\<lparr>drawn := drawn w1\<rparr>" by blast
  from assms f have "w' = w1" by (auto simp: NamedTemporaryFile_def split: option.splits)
  with w1 show ?thesis by simp
qed

lemma binary_installer_method_effect:
  assumes base: "files w (configfile self) = Some base"
    and run: "binary_installer_method sh self src tcf k w = (r, tcf', w')"
  shows "files w' = files w
     \<and> (\<exists>evs. trace w' = trace w @ evs
           \<and> (writes evs = [key_variant base k] \<and> length (commands evs) = 1
               \<or> writes evs = [] \<and> commands evs = [] \<and> (\<exists>e. r = Inl e)))"
proof -
  obtain t w1 where t: "NamedTemporaryFile w = (t, w1)" by (cases "NamedTemporaryFile w")
  show ?thesis
  proof (cases t)
    case (Inl e)
    from NamedTemporaryFile_error[OF t[unfolded Inl]] obtain m where
      w1: "w1 = w\<lparr>drawn := m\<rparr>" by blast
    from run t Inl have "w' = w1" and "\<exists>e. r = Inl e"
      by (auto simp: binary_installer_method_def split: error.splits option.splits)
    with w1 have "files w' = files w" and "trace w' = trace w @ []" by simp_all
    with \<open>\<exists>e. r = Inl e\<close> show ?thesis by fastforce
  next
    case (Inr p)
    from NamedTemporaryFile_result[OF t[unfolded Inr]] obtain m where
      fresh: "\<not> path_exists w p"
      and w1: "w1 = w\<lparr>files := (files w)(p \<mapsto> []), drawn := m\<rparr>" by blast
    from fresh have none: "files w p = None"
      by (auto simp: path_exists_def split: option.splits)
    with base have ne: "p \<noteq> configfile self" by auto
    from none have same: "(files w)(p := None) = files w" by auto
    let ?cmd = "binary_command self src p"
    let ?evs = "[Write p (key_variant base k), Run ?cmd, Unlink p]"
    from run t Inr w1 ne base have "files w' = (files w)(p := None)" and "trace w' = trace w @ ?evs"
      by (auto simp: binary_installer_method_def Let_def run_cmd_def write_file_def unlink_def
          split: sum.splits error.splits)
    with same have "files w' = files w" and "trace w' = trace w @ ?evs" by simp_all
    moreover have "writes ?evs = [key_variant base k] \<and> length (commands ?evs) = 1" by simp
    ultimately show ?thesis by blast
  qed
qed

lemma install_key_binary:
  assumes "version_ge (version self) ''2020a''"
    and "files w (configfile self) = Some base"
    and "install_key sh self src tmpdir tcf k w = (r, tcf', w')"
  shows "files w' = files w
     \<and> (\<exists>evs. trace w' = trace w @ evs
           \<and> (writes evs = [key_variant base k] \<and> length (commands evs) = 1
               \<or> writes evs = [] \<and> commands evs = [] \<and> (\<exists>e. r = Inl e)))"
proof -
  obtain r0 where b: "binary_installer_method sh self src tcf k w = (r0, tcf', w')"
    and r: "(\<exists>e. r0 = Inl e) \<longrightarrow> (\<exists>e. r = Inl e)"
    using assms(1,3)
    by (auto simp: install_key_def invoke_installer_def split: prod.splits sum.splits)
  from binary_installer_method_effect[OF assms(2) b] r show ?thesis by blast
qed

lemma install_keys_binary:
  assumes "version_ge (version self) ''2020a''"
  shows "files w (configfile self) = Some base \<Longrightarrow>
     install_keys sh self src tmpdir tcf ks w = (res, tcf', w') \<Longrightarrow>
     files w' = files w
     \<and> (\<exists>n\<le>length ks. writes (trace w') = writes (trace w) @ map (key_variant base) (take n ks)
           \<and> length (commands (trace w')) = length (commands (trace w)) + n
           \<and> (res = Inr () \<longrightarrow> n = length ks))"
proof (induction ks arbitrary: w tcf)
  case Nil
  then show ?case by auto
next
  case (Cons k ks)
  obtain r1 t1 w1 where p: "install_key sh self src tmpdir tcf k w = (r1, t1, w1)"
    by (cases "install_key sh self src tmpdir tcf k w")
  from install_key_binary[OF assms Cons.prems(1) p] obtain evs where
    f1: "files w1 = files w" and tr: "trace w1 = trace w @ evs"
    and evs: "writes evs = [key_variant base k] \<and> length (commands evs) = 1
               \<or> writes evs = [] \<and> commands evs = [] \<and> (\<exists>e. r1 = Inl e)" by blast
  show ?case
  proof (cases r1)
    case (Inl e)
    with Cons.prems(2) p have w': "w' = w1" and res: "res = Inl e" by auto
    from evs show ?thesis
    proof
      assume "writes evs = [key_variant base k] \<and> length (commands evs) = 1"
      with w' f1 tr res have "files w' = files w
         \<and> writes (trace w') = writes (trace w) @ map (key_variant base) (take 1 (k # ks))
         \<and> length (commands (trace w')) = length (commands (trace w)) + 1
         \<and> (res = Inr () \<longrightarrow> 1 = length (k # ks))"
        by (simp add: writes_append commands_append)
      then show ?thesis by (intro conjI exI[of _ 1]) simp_all
    next
      assume "writes evs = [] \<and> commands evs = [] \<and> (\<exists>e. r1 = Inl e)"
      with w' f1 tr res have "files w' = files w
         \<and> writes (trace w') = writes (trace w) @ map (key_variant base) (take 0 (k # ks))
         \<and> length (commands (trace w')) = length (commands (trace w)) + 0
         \<and> (res = Inr () \<longrightarrow> 0 = length (k # ks))"
        by (simp add: writes_append commands_append)
      then show ?thesis by (intro conjI exI[of _ 0]) simp_all
    qed
  next
    case (Inr u)
    with evs have one: "writes evs = [key_variant base k]" "length (commands evs) = 1" by auto
    from Inr Cons.prems(2) p
    have rest: "install_keys sh self src tmpdir t1 ks w1 = (res, tcf', w')" by auto
    from Cons.prems(1) f1 have "files w1 (configfile self) = Some base" by simp
    from Cons.IH[OF this rest] obtain n where n: "n \<le> length ks"
      and f: "files w' = files w1"
      and wr: "writes (trace w') = writes (trace w1) @ map (key_variant base) (take n ks)"
      and cm: "length (commands (trace w')) = length (commands (trace w1)) + n"
      and fin: "res = Inr () \<longrightarrow> n = length ks" by blast
    from f f1 wr cm fin tr one have "files w' = files w
         \<and> writes (trace w') = writes (trace w) @ map (key_variant base) (take (Suc n) (k # ks))
         \<and> length (commands (trace w')) = length (commands (trace w)) + Suc n
         \<and> (res = Inr () \<longrightarrow> Suc n = length (k # ks))"
      by (simp add: writes_append commands_append)
    with n show ?thesis by (intro conjI exI[of _ "Suc n"]) simp_all
  qed
qed

lemma binary_installer_method_writes_variant:
  assumes base: "files w (configfile self) = Some base"
    and tmp: "fst (NamedTemporaryFile w) = Inr p"
  shows "Write p (key_variant base k)
     \<in> set (trace (snd (snd (binary_installer_method sh self src tcf k w))))"
proof -
  obtain w1 where t: "NamedTemporaryFile w = (Inr p, w1)"
    using tmp by (cases "NamedTemporaryFile w") auto
  from NamedTemporaryFile_result[OF t] obtain m where
    fresh: "\<not> path_exists w p"
    and w1: "w1 = w\<lparr>files := (files w)(p \<mapsto> []), drawn := m\<rparr>" by blast
  from fresh base have ne: "p \<noteq> configfile self"
    by (auto simp: path_exists_def split: option.splits)
  from t w1 ne base show ?thesis
    by (auto simp: binary_installer_method_def Let_def run_cmd_def write_file_def unlink_def
        split: sum.splits error.splits)
qed

lemma key_variant_line:
  assumes "''# fileInstallationKey='' \<in> set (split_char nl base)" and "nl \<notin> set k"
  shows "''fileInstallationKey='' @ k \<in> set (split_char nl (key_variant base k))"
proof -
  have "split_char nl (key_variant base k)
      = map (\<lambda>l. key_variant l k) (split_char nl base)"
    unfolding key_variant_def using assms(2)
    by (intro split_char_replace) (simp_all add: nl_def)
  moreover have "key_variant ''# fileInstallationKey='' k = ''fileInstallationKey='' @ k"
    unfolding key_variant_def
    using replace_match[of "''# fileInstallationKey=''" "''fileInstallationKey='' @ k" "[]"]
    by (simp add: replace_Nil)
  ultimately show ?thesis using assms(1) by force
qed

lemma key_variant_no_marker:
  assumes "\<not> sublist ''# # fileInstallationKey='' base" and "CHR ''#'' \<notin> set k"
  shows "\<not> sublist ''# fileInstallationKey='' (key_variant base k)"
  unfolding key_variant_def
  using assms
  by (intro replace_removes_marker[where h="CHR ''#''" and m="CHR '' ''" and f="CHR ''f''"
        and t="''ileInstallationKey=''"]) simp_all

subsection \<open>The configuration of one key\<close>

text \<open>
  Claim C4, as amended. Take a version at or above "2020a" and a base configuration that
  has the line \<^verbatim>\<open># fileInstallationKey=\<close> (the inert key field), in which no occurrence of
  this marker comes right after another \<^verbatim>\<open>"# "\<close>, and which does not hold the text "AAAA".
  In a run of the loop over the keys "AAAA" and "BBBB" the texts written to the temporary
  configuration files are the variant for "AAAA" and then the variant for "BBBB", each made
  from the unchanged base. The variant for "BBBB" has the line
  \<^verbatim>\<open>fileInstallationKey=BBBB\<close>, does not contain the marker \<^verbatim>\<open># fileInstallationKey=\<close> and
  does not contain "AAAA".
\<close>

theorem key_variant_second_key:
  assumes "version_ge (version self) ''2020a''"
    and "files w (configfile self) = Some base"
    and "''# fileInstallationKey='' \<in> set (split_char nl base)"
    and "\<not> sublist ''# # fileInstallationKey='' base"
    and "\<not> sublist ''AAAA'' base"
  shows "(\<exists>n\<le>2.
            writes (trace (snd (snd (install_keys sh self src tmpdir tcf [''AAAA'', ''BBBB''] w))))
              = writes (trace w) @ take n [key_variant base ''AAAA'', key_variant base ''BBBB'']
            \<and> (fst (install_keys sh self src tmpdir tcf [''AAAA'', ''BBBB''] w) = Inr ()
                 \<longrightarrow> n = 2))
     \<and> ''fileInstallationKey=BBBB'' \<in> set (split_char nl (key_variant base ''BBBB''))
     \<and> \<not> sublist ''# fileInstallationKey='' (key_variant base ''BBBB'')
     \<and> \<not> sublist ''AAAA'' (key_variant base ''BBBB'')"
proof -
  obtain res t w' where
    run: "install_keys sh self src tmpdir tcf [''AAAA'', ''BBBB''] w = (res, t, w')"
    by (cases "install_keys sh self src tmpdir tcf [''AAAA'', ''BBBB''] w")
  from install_keys_binary[OF assms(1,2) run] obtain n where
    n: "n \<le> length [''AAAA'', ''BBBB'']"
    and wr: "writes (trace w') = writes (trace w)
           @ map (key_variant base) (take n [''AAAA'', ''BBBB''])"
    and fin: "res = Inr () \<longrightarrow> n = length [''AAAA'', ''BBBB'']" by blast
  from n have n2: "n \<le> 2" by simp
  from wr have wr2: "writes (trace w') = writes (trace w)
           @ take n [key_variant base ''AAAA'', key_variant base ''BBBB'']"
    by (simp only: take_map[symmetric] list.map)
  from fin have fin2: "res = Inr () \<longrightarrow> n = 2" by simp
  from n2 wr2 fin2 run have a: "\<exists>n\<le>2.
            writes (trace (snd (snd (install_keys sh self src tmpdir tcf [''AAAA'', ''BBBB''] w))))
              = writes (trace w) @ take n [key_variant base ''AAAA'', key_variant base ''BBBB'']
            \<and> (fst (install_keys sh self src tmpdir tcf [''AAAA'', ''BBBB''] w) = Inr ()
                 \<longrightarrow> n = 2)"
    by (intro exI[of _ n]) simp
  have b: "''fileInstallationKey=BBBB'' \<in> set (split_char nl (key_variant base ''BBBB''))"
    using key_variant_line[OF assms(3), of "''BBBB''"] by (simp add: nl_def)
  have c: "\<not> sublist ''# fileInstallationKey='' (key_variant base ''BBBB'')"
    using key_variant_no_marker[OF assms(4), of "''BBBB''"] by simp
  have d: "\<not> sublist ''AAAA'' (key_variant base ''BBBB'')"
    unfolding key_variant_def
    using assms(5) by (intro replace_keeps_absent) (simp_all add: sublist_code)
  from a b c d show ?thesis by blast
qed

theorem key_variant_second_key_witness:
  "version_ge (version (init sample_config ''/build'' ''/apps/matlab'' ''2020a'')) ''2020a''
   \<and> files sample_world (configfile (init sample_config ''/build'' ''/apps/matlab'' ''2020a''))
       = Some (''# fileInstallationKey='' @ [nl])
   \<and> ''# fileInstallationKey='' \<in> set (split_char nl (''# fileInstallationKey='' @ [nl]))
   \<and> \<not> sublist ''# # fileInstallationKey='' (''# fileInstallationKey='' @ [nl])
   \<and> \<not> sublist ''AAAA'' (''# fileInstallationKey='' @ [nl])
   \<and> ''fileInstallationKey=BBBB''
        \<in> set (split_char nl (key_variant (''# fileInstallationKey='' @ [nl]) ''BBBB''))
   \<and> \<not> sublist ''# fileInstallationKey='' (key_variant (''# fileInstallationKey='' @ [nl]) ''BBBB'')
   \<and> \<not> sublist ''AAAA'' (key_variant (''# fileInstallationKey='' @ [nl]) ''BBBB'')"
proof -
  let ?self = "init sample_config ''/build'' ''/apps/matlab'' ''2020a''"
  let ?base = "''# fileInstallationKey='' @ [nl]"
  have h1: "version_ge (version ?self) ''2020a''"
    by (simp add: init_def version_defs)
  have h2: "files sample_world (configfile ?self) = Some ?base"
    by (simp add: sample_defs)
  have h3: "''# fileInstallationKey='' \<in> set (split_char nl ?base)"
    by (simp add: nl_def split_char_eval del: split_char.simps(2))
  have h4: "\<not> sublist ''# # fileInstallationKey='' ?base"
    by (simp add: nl_def sublist_code)
  have h5: "\<not> sublist ''AAAA'' ?base"
    by (simp add: nl_def sublist_code)
  from key_variant_second_key [OF h1 h2 h3 h4 h5] h1 h2 h3 h4 h5 show ?thesis by blast
qed

text \<open>
  The claim as it was stated has no condition on what stands before the marker. The key is
  filled in by a replacement of the marker text wherever it stands, so a line
  \<^verbatim>\<open># # fileInstallationKey=\<close> becomes \<^verbatim>\<open># fileInstallationKey=BBBB\<close>, which contains the
  marker again.
\<close>

theorem commented_twice_counterexample:
  "version_ge (version (init sample_config ''/build'' ''/apps/matlab'' ''2020a'')) ''2020a''
   \<and> ''# fileInstallationKey='' \<in> set (split_char nl commented_twice)
   \<and> writes (trace (snd (snd (install_keys sample_shell
         (init sample_config ''/build'' ''/apps/matlab'' ''2020a'')
         ''/src/install'' ''-tmpdir /tmp/tmp'' None [''AAAA'', ''BBBB'']
         (sample_world\<lparr>files := [''/build/my_installer_input.txt'' \<mapsto> commented_twice]\<rparr>)))))
       = [''fileInstallationKey=AAAA'' @ [nl] @ ''# fileInstallationKey=AAAA'' @ [nl],
          ''fileInstallationKey=BBBB'' @ [nl] @ ''# fileInstallationKey=BBBB'' @ [nl]]
   \<and> sublist ''# fileInstallationKey=''
         (''fileInstallationKey=BBBB'' @ [nl] @ ''# fileInstallationKey=BBBB'' @ [nl])"
proof -
  let ?self = "init sample_config ''/build'' ''/apps/matlab'' ''2020a''"
  have h1: "version_ge (version ?self) ''2020a''"
    by (simp add: init_def version_defs)
  have h2: "''# fileInstallationKey='' \<in> set (split_char nl commented_twice)"
    by (simp add: commented_twice_def nl_def split_char_eval del: split_char.simps(2))
  have kA: "key_variant commented_twice ''AAAA''
      = ''fileInstallationKey=AAAA'' @ [nl] @ ''# fileInstallationKey=AAAA'' @ [nl]"
    by (simp add: key_variant_def commented_twice_def nl_def replace.simps)
  have kB: "key_variant commented_twice ''BBBB''
      = ''fileInstallationKey=BBBB'' @ [nl] @ ''# fileInstallationKey=BBBB'' @ [nl]"
    by (simp add: key_variant_def commented_twice_def nl_def replace.simps)
  have ok: "\<not> search_ignorecase ''Error: You have entered an invalid File Installation Key''
      ''done''"
    by (simp add: search_ignorecase_def lower_char_def sublist_code)
  have h3: "writes (trace (snd (snd (install_keys sample_shell ?self
         ''/src/install'' ''-tmpdir /tmp/tmp'' None [''AAAA'', ''BBBB'']
         (sample_world\<lparr>files := [''/build/my_installer_input.txt'' \<mapsto> commented_twice]\<rparr>)))))
       = [key_variant commented_twice ''AAAA'', key_variant commented_twice ''BBBB'']"
    using h1 ok
    by (simp add: install_key_def invoke_installer_def binary_installer_method_def
        NamedTemporaryFile_def TMP_MAX_def fresh_path.simps path_exists_def run_cmd_def
        write_file_def unlink_def patterns_def sample_defs Let_def)
  have h4: "sublist ''# fileInstallationKey=''
         (''fileInstallationKey=BBBB'' @ [nl] @ ''# fileInstallationKey=BBBB'' @ [nl])"
    by (simp add: nl_def sublist_code)
  from h1 h2 h3 h4 kA kB show ?thesis by simp
qed

text \<open>
  Claim C10. The key is filled in by a replacement of text, not of lines: an occurrence of
  \<^verbatim>\<open># fileInstallationKey=\<close> at any place of the base configuration, also in the middle
  of a line, becomes \<^verbatim>\<open>fileInstallationKey=\<close> followed by the key, the text before and the
  text after it are treated in the same way, and what followed the marker comes right after
  the key; a text without the marker stays as it is. In a pass of the input-file method
  this variant of the base configuration is what is written to the temporary file.
\<close>

theorem key_marker_replaced_anywhere:
  "key_variant (a @ ''# fileInstallationKey='' @ b) k
     = key_variant a k @ ''fileInstallationKey='' @ k @ key_variant b k
   \<and> (\<not> sublist ''# fileInstallationKey='' a \<and> \<not> sublist ''# fileInstallationKey='' b \<longrightarrow>
        key_variant (a @ ''# fileInstallationKey='' @ b) k = a @ ''fileInstallationKey='' @ k @ b)
   \<and> (version_ge (version self) ''2020a'' \<and> files w (configfile self) = Some base
        \<and> fst (NamedTemporaryFile w) = Inr p \<longrightarrow>
        Write p (key_variant base k)
          \<in> set (trace (snd (snd (install_key sh self src tmpdir tcf k w)))))"
proof (intro conjI impI)
  show eq: "key_variant (a @ ''# fileInstallationKey='' @ b) k
     = key_variant a k @ ''fileInstallationKey='' @ k @ key_variant b k" for a b
    unfolding key_variant_def
    using replace_append_occurrence[of "''# fileInstallationKey=''" "''fileInstallationKey='' @ k" a b]
    by simp
  assume "\<not> sublist ''# fileInstallationKey='' a \<and> \<not> sublist ''# fileInstallationKey='' b"
  then have "key_variant a k = a" and "key_variant b k = b"
    unfolding key_variant_def by (simp_all add: replace_absent)
  with eq[of a b] show "key_variant (a @ ''# fileInstallationKey='' @ b) k
      = a @ ''fileInstallationKey='' @ k @ b" by simp
next
  assume h: "version_ge (version self) ''2020a'' \<and> files w (configfile self) = Some base
        \<and> fst (NamedTemporaryFile w) = Inr p"
  then have "Write p (key_variant base k)
     \<in> set (trace (snd (snd (binary_installer_method sh self src tcf k w))))"
    using binary_installer_method_writes_variant by blast
  moreover from h have "snd (snd (install_key sh self src tmpdir tcf k w))
      = snd (snd (binary_installer_method sh self src tcf k w))"
    by (simp add: install_key_def invoke_installer_def split: prod.splits sum.splits)
  ultimately show "Write p (key_variant base k)
          \<in> set (trace (snd (snd (install_key sh self src tmpdir tcf k w))))" by simp
qed

theorem key_marker_replaced_anywhere_witness:
  "\<not> sublist ''# fileInstallationKey='' ''mode=x '' \<and> \<not> sublist ''# fileInstallationKey='' '' rest''
   \<and> key_variant (''mode=x '' @ ''# fileInstallationKey='' @ '' rest'') ''KEY''
       = ''mode=x '' @ ''fileInstallationKey='' @ ''KEY'' @ '' rest''
   \<and> version_ge (version (init sample_config ''/build'' ''/apps/matlab'' ''2020a'')) ''2020a''
   \<and> files sample_world (configfile (init sample_config ''/build'' ''/apps/matlab'' ''2020a''))
       = Some (''# fileInstallationKey='' @ [nl])
   \<and> fst (NamedTemporaryFile sample_world) = Inr ''/tmp/tmp''
   \<and> Write ''/tmp/tmp'' (key_variant (''# fileInstallationKey='' @ [nl]) ''KEY'')
       \<in> set (trace (snd (snd (install_key sample_shell
             (init sample_config ''/build'' ''/apps/matlab'' ''2020a'')
             ''/src/install'' ''-tmpdir /tmp/tmp'' None ''KEY'' sample_world))))"
proof -
  let ?self = "init sample_config ''/build'' ''/apps/matlab'' ''2020a''"
  have a: "\<not> sublist ''# fileInstallationKey='' ''mode=x ''
      \<and> \<not> sublist ''# fileInstallationKey='' '' rest''"
    by (simp add: sublist_code)
  have h1: "version_ge (version ?self) ''2020a''"
    by (simp add: init_def version_defs)
  have h2: "files sample_world (configfile ?self) = Some (''# fileInstallationKey='' @ [nl])"
    by (simp add: sample_defs)
  have h3: "fst (NamedTemporaryFile sample_world) = Inr ''/tmp/tmp''"
    by (simp add: NamedTemporaryFile_def TMP_MAX_def fresh_path.simps path_exists_def
        sample_world_def)
  from key_marker_replaced_anywhere [of "''mode=x ''" "'' rest''" "''KEY''" ?self sample_world
      "''# fileInstallationKey='' @ [nl]" "''/tmp/tmp''" sample_shell "''/src/install''"
      "''-tmpdir /tmp/tmp''" None] a h1 h2 h3
  show ?thesis by blast
qed

subsection \<open>The key list and the number of passes\<close>

lemma length_split_char: "length (split_char c s) = Suc (count_list s c)"
  by (induction s) (auto simp: split_char_not_Nil)

lemma join_split_char: "join_str [c] (split_char c s) = s"
proof (induction s)
  case Nil
  show ?case by simp
next
  case (Cons x xs)
  obtain l ls where sp: "split_char c xs = l # ls"
    using split_char_not_Nil[of c xs] by (cases "split_char c xs") auto
  show ?case
  proof (cases "x = c")
    case True
    with Cons sp show ?thesis by simp
  next
    case False
    with Cons sp show ?thesis by (cases ls) auto
  qed
qed

lemma split_char_segments: "seg \<in> set (split_char c s) \<Longrightarrow> c \<notin> set seg"
proof (induction s arbitrary: seg)
  case Nil
  then show ?case by simp
next
  case (Cons x xs)
  obtain l ls where sp: "split_char c xs = l # ls"
    using split_char_not_Nil[of c xs] by (cases "split_char c xs") auto
  from Cons.IH sp have l: "c \<notin> set l" and ls: "\<forall>y\<in>set ls. c \<notin> set y" by auto
  from Cons.prems sp l ls show ?case by (auto split: if_splits)
qed

lemma mkdtemp_error:
  assumes "mkdtemp w = (Inl e, w')"
  shows "w' = w\<lparr>drawn := drawn w'\<rparr>"
proof -
  obtain r w1 where f: "fresh_path TMP_MAX w = (r, w1)" by (cases "fresh_path TMP_MAX w")
  from fresh_path_result[OF f] have w1: "w1 = w\<lparr>drawn := drawn w1\<rparr>" by blast
  from assms f have "w' = w1" by (auto simp: mkdtemp_def split: option.splits)
  with w1 show ?thesis by simp
qed

lemma binary_installer_method_commands_le:
  assumes "binary_installer_method sh self src tcf k w = (r, tcf', w')"
  shows "\<exists>n\<le>1. length (commands (trace w')) = length (commands (trace w)) + n"
proof -
  obtain t w1 where t: "NamedTemporaryFile w = (t, w1)" by (cases "NamedTemporaryFile w")
  show ?thesis
  proof (cases t)
    case (Inl e)
    from NamedTemporaryFile_error[OF t[unfolded Inl]] obtain m where
      w1: "w1 = w\<lparr>drawn := m\<rparr>" by blast
    from assms t Inl have "w' = w1"
      by (auto simp: binary_installer_method_def split: error.splits option.splits)
    with w1 have "length (commands (trace w')) = length (commands (trace w)) + 0" by simp
    then show ?thesis by blast
  next
    case (Inr p)
    from NamedTemporaryFile_result[OF t[unfolded Inr]] obtain m where
      w1: "w1 = w\<lparr>files := (files w)(p \<mapsto> []), drawn := m\<rparr>" by blast
    show ?thesis
    proof (cases "files w1 (configfile self)")
      case None
      with assms t Inr w1 have "length (commands (trace w')) = length (commands (trace w)) + 0"
        by (auto simp: binary_installer_method_def unlink_def commands_append)
      then show ?thesis by blast
    next
      case (Some base)
      with assms t Inr w1 have "length (commands (trace w')) = length (commands (trace w)) + 1"
        by (auto simp: binary_installer_method_def Let_def run_cmd_def write_file_def unlink_def
            commands_append split: sum.splits error.splits)
      then show ?thesis by blast
    qed
  qed
qed

lemma install_key_commands:
  assumes "install_key sh self src tmpdir tcf k w = (r, tcf', w')"
  shows "\<exists>n\<le>1. length (commands (trace w')) = length (commands (trace w)) + n
           \<and> (r = Inr () \<longrightarrow> n = 1)"
proof -
  obtain r0 where inv: "invoke_installer sh self src tmpdir tcf k w = (r0, tcf', w')"
    and r: "r = Inr () \<longrightarrow> (\<exists>cmd out. r0 = Inr (cmd, out))"
    using assms by (auto simp: install_key_def split: prod.splits sum.splits)
  show ?thesis
  proof (cases r0)
    case (Inr co)
    obtain cmd out where "co = (cmd, out)" by (cases co)
    with Inr inv have "commands (trace w') = commands (trace w) @ [cmd]"
      using invoke_installer_commands by blast
    then have "length (commands (trace w')) = length (commands (trace w)) + 1" by simp
    then show ?thesis by blast
  next
    case (Inl e)
    with r have nr: "r \<noteq> Inr ()" by auto
    show ?thesis
    proof (cases "version_ge (version self) ''2020a''")
      case True
      with inv have "binary_installer_method sh self src tcf k w = (r0, tcf', w')"
        by (simp add: invoke_installer_def)
      from binary_installer_method_commands_le[OF this] nr show ?thesis by blast
    next
      case False
      with inv have "length (commands (trace w')) = length (commands (trace w)) + 1"
        by (auto simp: invoke_installer_def script_installer_method_def run_cmd_def Let_def
            commands_append split: sum.splits prod.splits)
      then show ?thesis by blast
    qed
  qed
qed

lemma install_keys_commands:
  "install_keys sh self src tmpdir tcf ks w = (res, tcf', w') \<Longrightarrow>
     \<exists>n\<le>length ks. length (commands (trace w')) = length (commands (trace w)) + n
        \<and> (res = Inr () \<longrightarrow> n = length ks)"
proof (induction ks arbitrary: w tcf)
  case Nil
  then show ?case by auto
next
  case (Cons k ks)
  obtain r1 t1 w1 where p: "install_key sh self src tmpdir tcf k w = (r1, t1, w1)"
    by (cases "install_key sh self src tmpdir tcf k w")
  from install_key_commands[OF p] obtain m where m: "m \<le> 1"
    and c1: "length (commands (trace w1)) = length (commands (trace w)) + m"
    and ok: "r1 = Inr () \<longrightarrow> m = 1" by blast
  show ?case
  proof (cases r1)
    case (Inl e)
    with Cons.prems p have "w' = w1" "res = Inl e" by auto
    with c1 m have "m \<le> length (k # ks)
        \<and> length (commands (trace w')) = length (commands (trace w)) + m
        \<and> (res = Inr () \<longrightarrow> m = length (k # ks))" by simp
    then show ?thesis by blast
  next
    case (Inr u)
    with ok have m1: "m = 1" by simp
    from Inr Cons.prems p
    have "install_keys sh self src tmpdir t1 ks w1 = (res, tcf', w')" by auto
    from Cons.IH[OF this] obtain n where "n \<le> length ks"
      and "length (commands (trace w')) = length (commands (trace w1)) + n"
      and "res = Inr () \<longrightarrow> n = length ks" by blast
    with c1 m1 have "Suc n \<le> length (k # ks)
        \<and> length (commands (trace w')) = length (commands (trace w)) + Suc n
        \<and> (res = Inr () \<longrightarrow> Suc n = length (k # ks))" by simp
    then show ?thesis by blast
  qed
qed

lemma writes_prepare: "writes (trace (prepare self w)) = writes (trace w)"
  by (simp add: prepare_def Let_def adjust_permissions_def change_dir_def writes_append)

text \<open>The install step is the loop, run on the state that the temporary directory gives.\<close>

lemma install_step_loop:
  assumes "mkdtemp (prepare self w) = (Inr d, w2)"
  shows "w2 = (prepare self w)\<lparr>dirs := insert d (dirs w), drawn := drawn w2\<rparr>
     \<and> install_step sh self w =
         (case install_keys sh (with_java_options self)
                 (path_join (start_dir (cfg self)) [''install'']) (''-tmpdir '' @ d) None
                 (key_list self w) w2 of
            (res, tcf, w3) \<Rightarrow> (res, with_java_options self, w3))"
proof -
  from mkdtemp_result[OF assms]
  have w2: "w2 = (prepare self w)\<lparr>dirs := insert d (dirs w), drawn := drawn w2\<rparr>"
    by (simp add: prepare_fields)
  then obtain i where "w2 = (prepare self w)\<lparr>dirs := insert d (dirs w), drawn := i\<rparr>"
    by blast
  then have "environ w2 = environ (prepare self w)" by simp
  then have keys: "key_list (with_java_options self) w2 = key_list self w"
    using key_list_prepare[of self w] key_list_environ[of w2 "prepare self w"] by simp
  have "install_step sh self w =
         (case install_keys sh (with_java_options self)
                 (path_join (start_dir (cfg self)) [''install'']) (''-tmpdir '' @ d) None
                 (key_list self w) w2 of
            (res, tcf, w3) \<Rightarrow> (res, with_java_options self, w3))"
    by (simp add: install_step_def Let_def assms keys)
  with w2 show ?thesis by blast
qed

lemma install_step_commands:
  "\<exists>n\<le>length (key_list self w).
      length (commands (trace (snd (snd (install_step sh self w)))))
        = length (commands (trace w)) + n
      \<and> (fst (install_step sh self w) = Inr () \<longrightarrow> n = length (key_list self w))"
proof -
  obtain r w2 where m: "mkdtemp (prepare self w) = (r, w2)"
    by (cases "mkdtemp (prepare self w)")
  show ?thesis
  proof (cases r)
    case (Inl e)
    from mkdtemp_error[OF m[unfolded Inl]] obtain i where "w2 = (prepare self w)\<lparr>drawn := i\<rparr>"
      by blast
    then have "commands (trace w2) = commands (trace w)" by (simp add: prepare_fields)
    moreover from m Inl have "install_step sh self w = (Inl e, with_java_options self, w2)"
      by (simp add: install_step_def Let_def)
    ultimately have "0 \<le> length (key_list self w)
      \<and> length (commands (trace (snd (snd (install_step sh self w)))))
        = length (commands (trace w)) + 0
      \<and> (fst (install_step sh self w) = Inr () \<longrightarrow> 0 = length (key_list self w))" by simp
    then show ?thesis by blast
  next
    case (Inr d)
    from install_step_loop[OF m[unfolded Inr], of sh] obtain i where
      w2: "w2 = (prepare self w)\<lparr>dirs := insert d (dirs w), drawn := i\<rparr>"
      and step: "install_step sh self w =
         (case install_keys sh (with_java_options self)
                 (path_join (start_dir (cfg self)) [''install'']) (''-tmpdir '' @ d) None
                 (key_list self w) w2 of
            (res, tcf, w3) \<Rightarrow> (res, with_java_options self, w3))" by blast
    obtain res tcf w3 where loop: "install_keys sh (with_java_options self)
                 (path_join (start_dir (cfg self)) [''install'']) (''-tmpdir '' @ d) None
                 (key_list self w) w2 = (res, tcf, w3)"
      using prod_cases3 by blast
    from install_keys_commands[OF loop] obtain n where n: "n \<le> length (key_list self w)"
      and c: "length (commands (trace w3)) = length (commands (trace w2)) + n"
      and fin: "res = Inr () \<longrightarrow> n = length (key_list self w)" by blast
    from w2 have "commands (trace w2) = commands (trace w)" by (simp add: prepare_fields)
    with c step loop fin have "length (commands (trace (snd (snd (install_step sh self w)))))
        = length (commands (trace w)) + n
      \<and> (fst (install_step sh self w) = Inr () \<longrightarrow> n = length (key_list self w))" by simp
    with n show ?thesis by blast
  qed
qed

lemma install_step_binary:
  assumes v: "version_ge (version self) ''2020a''"
    and base: "files w (configfile self) = Some base"
    and ok: "fst (install_step sh self w) = Inr ()"
  shows "writes (trace (snd (snd (install_step sh self w))))
     = writes (trace w) @ map (key_variant base) (key_list self w)"
proof -
  obtain r w2 where m: "mkdtemp (prepare self w) = (r, w2)"
    by (cases "mkdtemp (prepare self w)")
  show ?thesis
  proof (cases r)
    case (Inl e)
    with m have "install_step sh self w = (Inl e, with_java_options self, w2)"
      by (simp add: install_step_def Let_def)
    with ok show ?thesis by simp
  next
    case (Inr d)
    from install_step_loop[OF m[unfolded Inr], of sh] obtain i where
      w2: "w2 = (prepare self w)\<lparr>dirs := insert d (dirs w), drawn := i\<rparr>"
      and step: "install_step sh self w =
         (case install_keys sh (with_java_options self)
                 (path_join (start_dir (cfg self)) [''install'']) (''-tmpdir '' @ d) None
                 (key_list self w) w2 of
            (res, tcf, w3) \<Rightarrow> (res, with_java_options self, w3))" by blast
    obtain res tcf w3 where loop: "install_keys sh (with_java_options self)
                 (path_join (start_dir (cfg self)) [''install'']) (''-tmpdir '' @ d) None
                 (key_list self w) w2 = (res, tcf, w3)"
      using prod_cases3 by blast
    from v have v': "version_ge (version (with_java_options self)) ''2020a''"
      by (simp add: with_java_options_fields)
    from w2 base have b': "files w2 (configfile (with_java_options self)) = Some base"
      by (simp add: prepare_fields with_java_options_fields)
    from install_keys_binary[OF v' b' loop] obtain n where
      wr: "writes (trace w3) = writes (trace w2)
             @ map (key_variant base) (take n (key_list self w))"
      and fin: "res = Inr () \<longrightarrow> n = length (key_list self w)" by blast
    from step loop ok have "res = Inr ()" by simp
    with fin have "n = length (key_list self w)" by simp
    moreover from w2 have "writes (trace w2) = writes (trace w)" by (simp add: writes_prepare)
    ultimately show ?thesis using wr step loop by simp
  qed
qed

text \<open>
  Claim C9. A key given as one string is split at its commas: the key list is the list of
  the segments between the commas, in order, so a string with \<open>N - 1\<close> commas gives \<open>N\<close>
  keys (one key for a string without comma), the segments joined by commas give the string
  back and no segment holds a comma. A key given as a list is the key list as it is. The
  install step runs at most one command for each key, and when it ends without an
  exception it has made exactly one pass for each key, in the order of the list: with the
  script method the commands are those of the keys, with the input-file method the texts
  written are the variants of the base configuration for the keys.
\<close>

theorem key_string_split:
  "(key (cfg self) = Some (KeyString s) \<longrightarrow>
       key_list self w = split_char CHR '','' s
       \<and> length (key_list self w) = Suc (count_list s CHR '','')
       \<and> join_str '','' (key_list self w) = s
       \<and> (\<forall>seg\<in>set (key_list self w). CHR '','' \<notin> set seg))
   \<and> (key (cfg self) = Some (KeyList ks) \<longrightarrow> key_list self w = ks)
   \<and> length (commands (trace (snd (snd (install_step sh self w)))))
       \<le> length (commands (trace w)) + length (key_list self w)
   \<and> (fst (install_step sh self w) = Inr () \<longrightarrow>
        length (commands (trace (snd (snd (install_step sh self w)))))
          = length (commands (trace w)) + length (key_list self w)
        \<and> (version_lt (version self) ''2020a'' \<longrightarrow>
             (\<exists>d. commands (trace (snd (snd (install_step sh self w)))) =
                    commands (trace w)
                    @ map (script_command (with_java_options self)
                             (path_join (start_dir (cfg self)) [''install'']) (''-tmpdir '' @ d))
                        (key_list self w)))
        \<and> (version_ge (version self) ''2020a'' \<and> files w (configfile self) = Some base \<longrightarrow>
             writes (trace (snd (snd (install_step sh self w))))
               = writes (trace w) @ map (key_variant base) (key_list self w)))"
proof (intro conjI impI)
  assume k: "key (cfg self) = Some (KeyString s)"
  then show l: "key_list self w = split_char CHR '','' s" by (simp add: key_list_def)
  from l show "length (key_list self w) = Suc (count_list s CHR '','')"
    by (simp add: length_split_char)
  from l show "join_str '','' (key_list self w) = s"
    using join_split_char[of "CHR '',''" s] by simp
  from l show "\<forall>seg\<in>set (key_list self w). CHR '','' \<notin> set seg"
    using split_char_segments[of _ "CHR '',''" s] by simp
next
  assume "key (cfg self) = Some (KeyList ks)"
  then show "key_list self w = ks" by (simp add: key_list_def)
next
  from install_step_commands[of self w sh]
  show "length (commands (trace (snd (snd (install_step sh self w)))))
       \<le> length (commands (trace w)) + length (key_list self w)" by auto
next
  assume ok: "fst (install_step sh self w) = Inr ()"
  with install_step_commands[of self w sh]
  show "length (commands (trace (snd (snd (install_step sh self w)))))
          = length (commands (trace w)) + length (key_list self w)" by auto
next
  assume ok: "fst (install_step sh self w) = Inr ()"
    and v: "version_lt (version self) ''2020a''"
  from v have legacy: "\<not> version_ge (version self) ''2020a''" by (simp add: version_lt_iff)
  obtain r w2 where m: "mkdtemp (prepare self w) = (r, w2)"
    by (cases "mkdtemp (prepare self w)")
  from m ok obtain d where d: "fst (mkdtemp (prepare self w)) = Inr d"
    by (cases r) (auto simp: install_step_def Let_def)
  from install_step_script[OF legacy d, of sh] ok obtain n where
    "commands (trace (snd (snd (install_step sh self w)))) =
            commands (trace w)
            @ map (script_command (with_java_options self)
                     (path_join (start_dir (cfg self)) [''install'']) (''-tmpdir '' @ d))
                (take n (key_list self w))"
    and "n = length (key_list self w)" by blast
  then show "\<exists>d. commands (trace (snd (snd (install_step sh self w)))) =
                    commands (trace w)
                    @ map (script_command (with_java_options self)
                             (path_join (start_dir (cfg self)) [''install'']) (''-tmpdir '' @ d))
                        (key_list self w)" by auto
next
  assume ok: "fst (install_step sh self w) = Inr ()"
    and "version_ge (version self) ''2020a'' \<and> files w (configfile self) = Some base"
  then show "writes (trace (snd (snd (install_step sh self w))))
               = writes (trace w) @ map (key_variant base) (key_list self w)"
    using install_step_binary by blast
qed

theorem key_string_split_witness:
  "key (cfg (init sample_config ''/build'' ''/apps/matlab'' ''2019b''))
       = Some (KeyString ''AAAA,BBBB'')
   \<and> key_list (init sample_config ''/build'' ''/apps/matlab'' ''2019b'') sample_world
       = [''AAAA'', ''BBBB'']
   \<and> fst (install_step sample_shell (init sample_config ''/build'' ''/apps/matlab'' ''2019b'')
         sample_world) = Inr ()
   \<and> version_lt (version (init sample_config ''/build'' ''/apps/matlab'' ''2019b'')) ''2020a''
   \<and> length (commands (trace (snd (snd (install_step sample_shell
         (init sample_config ''/build'' ''/apps/matlab'' ''2019b'') sample_world))))) = 2
   \<and> key (cfg (init (sample_config\<lparr>key := Some (KeyList [''K1'', ''K2'', ''K3''])\<rparr>)
         ''/build'' ''/apps/matlab'' ''2020a'')) = Some (KeyList [''K1'', ''K2'', ''K3''])
   \<and> key_list (init (sample_config\<lparr>key := Some (KeyList [''K1'', ''K2'', ''K3''])\<rparr>)
         ''/build'' ''/apps/matlab'' ''2020a'') sample_world = [''K1'', ''K2'', ''K3'']
   \<and> version_ge (version (init (sample_config\<lparr>key := Some (KeyList [''K1'', ''K2'', ''K3''])\<rparr>)
         ''/build'' ''/apps/matlab'' ''2020a'')) ''2020a''
   \<and> files sample_world
         (configfile (init (sample_config\<lparr>key := Some (KeyList [''K1'', ''K2'', ''K3''])\<rparr>)
            ''/build'' ''/apps/matlab'' ''2020a'')) = Some (''# fileInstallationKey='' @ [nl])
   \<and> fst (install_step sample_shell
         (init (sample_config\<lparr>key := Some (KeyList [''K1'', ''K2'', ''K3''])\<rparr>)
            ''/build'' ''/apps/matlab'' ''2020a'') sample_world) = Inr ()
   \<and> writes (trace (snd (snd (install_step sample_shell
         (init (sample_config\<lparr>key := Some (KeyList [''K1'', ''K2'', ''K3''])\<rparr>)
            ''/build'' ''/apps/matlab'' ''2020a'') sample_world))))
       = map (key_variant (''# fileInstallationKey='' @ [nl])) [''K1'', ''K2'', ''K3'']"
proof -
  let ?s1 = "init sample_config ''/build'' ''/apps/matlab'' ''2019b''"
  let ?s2 = "init (sample_config\<lparr>key := Some (KeyList [''K1'', ''K2'', ''K3''])\<rparr>)
         ''/build'' ''/apps/matlab'' ''2020a''"
  let ?base = "''# fileInstallationKey='' @ [nl]"
  have k1: "key (cfg ?s1) = Some (KeyString ''AAAA,BBBB'')"
    by (simp add: init_def sample_config_def)
  have ok1: "fst (install_step sample_shell ?s1 sample_world) = Inr ()"
    by (simp add: sample_defs run_defs version_defs Let_def)
  have v1: "version_lt (version ?s1) ''2020a''"
    by (simp add: init_def version_defs)
  have k2: "key (cfg ?s2) = Some (KeyList [''K1'', ''K2'', ''K3''])"
    by (simp add: init_def sample_config_def)
  have v2: "version_ge (version ?s2) ''2020a''"
    by (simp add: init_def version_defs)
  have b2: "files sample_world (configfile ?s2) = Some ?base"
    by (simp add: sample_defs)
  have ok2: "fst (install_step sample_shell ?s2 sample_world) = Inr ()"
    by (simp add: sample_defs run_defs version_defs Let_def replace.simps)
  have sp: "split_char CHR '','' ''AAAA,BBBB'' = [''AAAA'', ''BBBB'']"
    by (simp add: split_char_eval del: split_char.simps(2))
  have tr: "commands (trace sample_world) = []" "writes (trace sample_world) = []"
    by (simp_all add: sample_world_def)
  from key_string_split [of ?s1 "''AAAA,BBBB''" sample_world "[]" sample_shell ?base] k1 ok1 sp tr
  have a: "key_list ?s1 sample_world = [''AAAA'', ''BBBB'']"
    and b: "length (commands (trace (snd (snd (install_step sample_shell ?s1 sample_world))))) = 2"
    by simp_all
  from key_string_split [of ?s2 "[]" sample_world "[''K1'', ''K2'', ''K3'']" sample_shell ?base]
    k2 v2 b2 ok2 tr
  have c: "key_list ?s2 sample_world = [''K1'', ''K2'', ''K3'']"
    and d: "writes (trace (snd (snd (install_step sample_shell ?s2 sample_world))))
       = map (key_variant ?base) [''K1'', ''K2'', ''K3'']"
    by simp_all
  from k1 a ok1 v1 b k2 c v2 b2 ok2 d show ?thesis by blast
qed

subsection \<open>The four substitutions, line by line\<close>

lemma parse_template_literal: "bslash \<notin> set r \<Longrightarrow> parse_template r = Inr r"
  by (induction r rule: parse_template.induct) auto

lemma join_str_Cons_head: "join_str sep ((c # l) # ls) = c # join_str sep (l # ls)"
  by (cases ls) auto

lemma join_str_Cons: "ls \<noteq> [] \<Longrightarrow> join_str sep (l # ls) = l @ sep @ join_str sep ls"
  by (cases ls) auto

lemma split_char_takeWhile:
  "split_char c s =
     takeWhile (\<lambda>x. x \<noteq> c) s
     # (case dropWhile (\<lambda>x. x \<noteq> c) s of [] \<Rightarrow> [] | x # rest \<Rightarrow> split_char c rest)"
  by (induction s) (auto simp: split_char_not_Nil)

lemma prefix_first_line:
  assumes "prefix m s" and "c \<notin> set m"
  shows "prefix m (takeWhile (\<lambda>x. x \<noteq> c) s)"
proof -
  from assms(1) obtain t where "s = m @ t" by (auto simp: prefix_def)
  moreover from assms(2)
  have "takeWhile (\<lambda>x. x \<noteq> c) (m @ t) = m @ takeWhile (\<lambda>x. x \<noteq> c) t"
    by (intro takeWhile_append2) auto
  ultimately show ?thesis by simp
qed

text \<open>The scan, line by line: a line that starts with the marker is replaced as a whole.\<close>

lemma sub_scan_lines:
  assumes "m \<noteq> []" and "nl \<notin> set m"
  shows "sub_scan m r bol s =
     (case split_char nl s of
        [] \<Rightarrow> []
      | l # ls \<Rightarrow>
          join_str [nl] ((if bol \<and> prefix m l then r else l)
                         # map (\<lambda>l. if prefix m l then r else l) ls))"
  using assms
proof (induction m r bol s rule: sub_scan.induct)
  case (1 marker repl bol)
  then show ?case by simp
next
  case (2 marker repl bol c cs)
  note ne = "2.prems"(1) and nonl = "2.prems"(2)
  let ?f = "\<lambda>l. if prefix marker l then repl else l"
  show ?case
  proof (cases "bol \<and> c \<noteq> nl \<and> prefix marker (c # cs)")
    case True
    let ?d = "dropWhile (\<lambda>x. x \<noteq> nl) cs"
    let ?l = "c # takeWhile (\<lambda>x. x \<noteq> nl) cs"
    from True have scan: "sub_scan marker repl bol (c # cs) = repl @ sub_scan marker repl False ?d"
      by simp
    from True "2.IH"(1) ne nonl have ih: "sub_scan marker repl False ?d =
        (case split_char nl ?d of [] \<Rightarrow> []
         | l # ls \<Rightarrow> join_str [nl] (l # map ?f ls))" by (simp split: list.splits)
    from True have first: "takeWhile (\<lambda>x. x \<noteq> nl) (c # cs) = ?l" by simp
    from True nonl have pl: "prefix marker ?l"
      using prefix_first_line[of marker "c # cs" nl] by simp
    show ?thesis
    proof (cases ?d)
      case Nil
      have "sub_scan marker repl False ?d = []" unfolding Nil by simp
      moreover have "split_char nl (c # cs) = [?l]"
        using True by (subst split_char_takeWhile) (simp add: Nil)
      ultimately show ?thesis using scan pl True by simp
    next
      case (Cons x rest)
      then have x: "x = nl" using hd_dropWhile[of "\<lambda>x. x \<noteq> nl" cs] by fastforce
      obtain y ys where sp: "split_char nl rest = y # ys"
        using split_char_not_Nil[of nl rest] by (cases "split_char nl rest") auto
      from x sp ih have "sub_scan marker repl False ?d = nl # join_str [nl] (map ?f (y # ys))"
        unfolding Cons by simp
      moreover have "split_char nl (c # cs) = ?l # y # ys"
        using True sp by (subst split_char_takeWhile) (simp add: Cons)
      ultimately show ?thesis using scan pl True by simp
    qed
  next
    case False
    then have scan: "sub_scan marker repl bol (c # cs) = c # sub_scan marker repl (c = nl) cs"
      by auto
    from False "2.IH"(2) ne nonl have ih: "sub_scan marker repl (c = nl) cs =
        (case split_char nl cs of [] \<Rightarrow> []
         | l # ls \<Rightarrow> join_str [nl] ((if c = nl \<and> prefix marker l then repl else l)
                                      # map ?f ls))" by simp
    obtain y ys where sp: "split_char nl cs = y # ys"
      using split_char_not_Nil[of nl cs] by (cases "split_char nl cs") auto
    show ?thesis
    proof (cases "c = nl")
      case True
      with ne have "\<not> prefix marker []" by simp
      with True scan ih sp show ?thesis by (simp add: join_str_Cons)
    next
      case cn: False
      have "prefix (c # y) (c # cs)" using prefix_hd_split_char[of nl cs] sp by simp
      with False cn have "bol \<longrightarrow> \<not> prefix marker (c # y)"
        using prefix_order.order_trans by blast
      with cn scan ih sp show ?thesis by (auto simp: join_str_Cons_head)
    qed
  qed
qed

lemma re_sub_lines:
  assumes "m \<noteq> []" and "nl \<notin> set m" and "bslash \<notin> set r"
  shows "re_sub m r s =
     Inr (join_str [nl] (map (\<lambda>l. if prefix m l then r else l) (split_char nl s)))"
proof -
  obtain l ls where sp: "split_char nl s = l # ls"
    using split_char_not_Nil[of nl s] by (cases "split_char nl s") auto
  from sub_scan_lines[OF assms(1,2), of r True s] sp assms(3) show ?thesis
    by (simp add: re_sub_def parse_template_literal)
qed

lemma split_join_lines:
  "ls \<noteq> [] \<Longrightarrow> \<forall>l\<in>set ls. c \<notin> set l \<Longrightarrow> split_char c (join_str [c] ls) = ls"
proof (induction ls)
  case Nil
  then show ?case by simp
next
  case (Cons l ls)
  show ?case
  proof (cases ls)
    case Nil
    from Cons.prems(2) have "c \<notin> set l" by simp
    then have "split_char c (l @ []) = (l @ hd (split_char c [])) # tl (split_char c [])"
      by (rule split_char_append)
    with Nil show ?thesis by simp
  next
    case (Cons y ys)
    with Cons.IH Cons.prems have ih: "split_char c (join_str [c] ls) = ls" by simp
    from Cons.prems(2) have "c \<notin> set l" by simp
    then have "split_char c (l @ c # join_str [c] ls)
        = (l @ hd (split_char c (c # join_str [c] ls))) # tl (split_char c (c # join_str [c] ls))"
      by (rule split_char_append)
    with ih Cons show ?thesis by (simp add: join_str_Cons)
  qed
qed

lemma replaced_lines_without:
  "\<forall>l\<in>set ls. c \<notin> set l \<Longrightarrow> c \<notin> set r \<Longrightarrow>
     \<forall>l\<in>set (map (\<lambda>l. if P l then r else l) ls). c \<notin> set l"
  by auto

lemma activate_lines:
  assumes "bslash \<notin> set idir" and "nl \<notin> set idir"
    and "bslash \<notin> set licfile" and "nl \<notin> set licfile"
  shows "activate idir licfile config =
     Inr (join_str [nl] (map (activated_line idir licfile) (split_char nl config)))"
proof -
  let ?f1 = "\<lambda>l. if prefix ''# destinationFolder='' l then ''destinationFolder='' @ idir else l"
  let ?f2 = "\<lambda>l. if prefix ''# agreeToLicense='' l then ''agreeToLicense=Yes'' else l"
  let ?f3 = "\<lambda>l. if prefix ''# mode='' l then ''mode=silent'' else l"
  let ?f4 = "\<lambda>l. if prefix ''# licensePath='' l then ''licensePath='' @ licfile else l"
  let ?ls = "split_char nl config"
  have ne1: "map ?f1 ?ls \<noteq> []"
    and ne2: "map ?f2 (map ?f1 ?ls) \<noteq> []"
    and ne3: "map ?f3 (map ?f2 (map ?f1 ?ls)) \<noteq> []"
    by (simp_all add: split_char_not_Nil)
  have l0: "\<forall>l\<in>set ?ls. nl \<notin> set l" using split_char_segments by blast
  have s1: "re_sub ''# destinationFolder='' (''destinationFolder='' @ idir) config
      = Inr (join_str [nl] (map ?f1 ?ls))"
    using assms(1) by (intro re_sub_lines) (simp_all add: nl_def bslash_def)
  from assms(2) have "nl \<notin> set (''destinationFolder='' @ idir)" by (simp add: nl_def)
  with l0 have l1: "\<forall>l\<in>set (map ?f1 ?ls). nl \<notin> set l"
    by (rule replaced_lines_without)
  have s2: "re_sub ''# agreeToLicense='' ''agreeToLicense=Yes'' (join_str [nl] (map ?f1 ?ls))
      = Inr (join_str [nl] (map ?f2 (map ?f1 ?ls)))"
    using split_join_lines[OF ne1 l1]
      re_sub_lines[of "''# agreeToLicense=''" "''agreeToLicense=Yes''" "join_str [nl] (map ?f1 ?ls)"]
    by (simp add: nl_def bslash_def)
  have "nl \<notin> set ''agreeToLicense=Yes''" by (simp add: nl_def)
  with l1 have l2: "\<forall>l\<in>set (map ?f2 (map ?f1 ?ls)). nl \<notin> set l"
    by (rule replaced_lines_without)
  have s3: "re_sub ''# mode='' ''mode=silent'' (join_str [nl] (map ?f2 (map ?f1 ?ls)))
      = Inr (join_str [nl] (map ?f3 (map ?f2 (map ?f1 ?ls))))"
    using split_join_lines[OF ne2 l2]
      re_sub_lines[of "''# mode=''" "''mode=silent''" "join_str [nl] (map ?f2 (map ?f1 ?ls))"]
    by (simp add: nl_def bslash_def)
  have "nl \<notin> set ''mode=silent''" by (simp add: nl_def)
  with l2 have l3: "\<forall>l\<in>set (map ?f3 (map ?f2 (map ?f1 ?ls))). nl \<notin> set l"
    by (rule replaced_lines_without)
  have s4: "re_sub ''# licensePath='' (''licensePath='' @ licfile)
        (join_str [nl] (map ?f3 (map ?f2 (map ?f1 ?ls))))
      = Inr (join_str [nl] (map ?f4 (map ?f3 (map ?f2 (map ?f1 ?ls)))))"
    using split_join_lines[OF ne3 l3] assms(3)
      re_sub_lines[of "''# licensePath=''" "''licensePath='' @ licfile"
        "join_str [nl] (map ?f3 (map ?f2 (map ?f1 ?ls)))"]
    by (simp add: nl_def bslash_def)
  have mm: "map ?f4 (map ?f3 (map ?f2 (map ?f1 ?ls))) = map (activated_line idir licfile) ?ls"
    by (auto simp: activated_line_def)
  show ?thesis
    unfolding activate_def and_then_def by (simp only: s1 s2 s3 s4 sum.case mm)
qed

lemma activated_line_no_marker:
  "\<not> prefix ''# destinationFolder='' (activated_line idir licfile l)
   \<and> \<not> prefix ''# agreeToLicense='' (activated_line idir licfile l)
   \<and> \<not> prefix ''# mode='' (activated_line idir licfile l)
   \<and> \<not> prefix ''# licensePath='' (activated_line idir licfile l)"
  by (simp add: activated_line_def)

lemma configure_step_activates_markers:
  assumes "bslash \<notin> set (installdir self)" and "nl \<notin> set (installdir self)"
    and "bslash \<notin> set (fst (license_step self w))" and "nl \<notin> set (fst (license_step self w))"
    and "files (snd (license_step self w)) (path_join (start_dir (cfg self)) [''installer_input.txt''])
          = Some template"
  shows "fst (configure_step self w) = Inr ()
     \<and> files (snd (configure_step self w)) (configfile self)
         = Some (join_str [nl] (map (activated_line (installdir self) (fst (license_step self w)))
                   (split_char nl template)))"
proof -
  obtain licfile w1 where l: "license_step self w = (licfile, w1)"
    by (cases "license_step self w")
  with assms have "activate (installdir self) licfile template =
      Inr (join_str [nl] (map (activated_line (installdir self) licfile) (split_char nl template)))"
    by (intro activate_lines) simp_all
  with l assms(5) show ?thesis
    by (simp add: configure_step_def Let_def write_file_def)
qed

text \<open>
  Claim C2 holds for an installation directory and a license path without backslash and
  without newline, as \<open>configure_step_activates_markers\<close> shows. It fails otherwise, since
  \<^verbatim>\<open>regex.sub\<close> reads its replacement as a template. The sample template has exactly one
  line for each of the four markers; with the installation directory
  \<^verbatim>\<open>/apps/matlab\new\<close> (a backslash before the letter n) the configure step writes the
  line \<^verbatim>\<open>destinationFolder=/apps/matlab\<close> and a further line \<^verbatim>\<open>ew\<close>: the value is not the
  installation directory, and a line was added.
\<close>

theorem backslash_in_installdir:
  "length (filter (prefix ''# destinationFolder='') (split_char nl sample_template)) = 1
   \<and> length (filter (prefix ''# agreeToLicense='') (split_char nl sample_template)) = 1
   \<and> length (filter (prefix ''# mode='') (split_char nl sample_template)) = 1
   \<and> length (filter (prefix ''# licensePath='') (split_char nl sample_template)) = 1
   \<and> configure_step
         (init sample_config ''/build'' (''/apps/matlab'' @ [bslash] @ ''new'') ''2019b'')
         sample_world
       = (Inr (),
          sample_world
            \<lparr>files := (files sample_world)
               (''/build/matlab.lic'' \<mapsto>
                  ''SERVER license.example.com 000000000000 00000'' @ [nl] @ ''USE_SERVER'',
                ''/build/my_installer_input.txt'' \<mapsto>
                  ''## installer input'' @ [nl] @ ''destinationFolder=/apps/matlab'' @ [nl]
                  @ ''ew'' @ [nl] @ ''agreeToLicense=Yes'' @ [nl] @ ''mode=silent'' @ [nl]
                  @ ''licensePath=/build/matlab.lic'' @ [nl] @ ''# fileInstallationKey='' @ [nl]),
             trace :=
               [Write ''/build/matlab.lic''
                  (''SERVER license.example.com 000000000000 00000'' @ [nl] @ ''USE_SERVER''),
                Write ''/build/my_installer_input.txt'' sample_template,
                Write ''/build/my_installer_input.txt''
                  (''## installer input'' @ [nl] @ ''destinationFolder=/apps/matlab'' @ [nl]
                   @ ''ew'' @ [nl] @ ''agreeToLicense=Yes'' @ [nl] @ ''mode=silent'' @ [nl]
                   @ ''licensePath=/build/matlab.lic'' @ [nl] @ ''# fileInstallationKey='' @ [nl])]\<rparr>)"
proof -
  have a: "split_char nl sample_template =
      [''## installer input'', ''# destinationFolder='', ''# agreeToLicense='', ''# mode='',
       ''# licensePath='', ''# fileInstallationKey='', []]"
    by (simp add: sample_template_def nl_def split_char_eval del: split_char.simps(2))
  have b: "activate (''/apps/matlab'' @ [bslash] @ ''new'') ''/build/matlab.lic'' sample_template
      = Inr (''## installer input'' @ [nl] @ ''destinationFolder=/apps/matlab'' @ [nl]
             @ ''ew'' @ [nl] @ ''agreeToLicense=Yes'' @ [nl] @ ''mode=silent'' @ [nl]
             @ ''licensePath=/build/matlab.lic'' @ [nl] @ ''# fileInstallationKey='' @ [nl])"
    by (simp add: activate_def and_then_def re_sub_def escape_char_def bslash_def nl_def
        sample_template_def)
  have c: "configure_step
         (init sample_config ''/build'' (''/apps/matlab'' @ [bslash] @ ''new'') ''2019b'')
         sample_world
       = (Inr (),
          sample_world
            \<lparr>files := (files sample_world)
               (''/build/matlab.lic'' \<mapsto>
                  ''SERVER license.example.com 000000000000 00000'' @ [nl] @ ''USE_SERVER'',
                ''/build/my_installer_input.txt'' \<mapsto>
                  ''## installer input'' @ [nl] @ ''destinationFolder=/apps/matlab'' @ [nl]
                  @ ''ew'' @ [nl] @ ''agreeToLicense=Yes'' @ [nl] @ ''mode=silent'' @ [nl]
                  @ ''licensePath=/build/matlab.lic'' @ [nl] @ ''# fileInstallationKey='' @ [nl]),
             trace :=
               [Write ''/build/matlab.lic''
                  (''SERVER license.example.com 000000000000 00000'' @ [nl] @ ''USE_SERVER''),
                Write ''/build/my_installer_input.txt'' sample_template,
                Write ''/build/my_installer_input.txt''
                  (''## installer input'' @ [nl] @ ''destinationFolder=/apps/matlab'' @ [nl]
                   @ ''ew'' @ [nl] @ ''agreeToLicense=Yes'' @ [nl] @ ''mode=silent'' @ [nl]
                   @ ''licensePath=/build/matlab.lic'' @ [nl] @ ''# fileInstallationKey='' @ [nl])]\<rparr>)"
    using b
    by (simp add: configure_step_def license_step_def license_text_def getenv_def Let_def
        write_file_def init_def sample_config_def sample_world_def path_join_def path_join2_def)
  from a c show ?thesis by simp
qed

subsection \<open>The license file\<close>

text \<open>
  Claim C7, as amended. If no license file, no license server and no license server port
  are configured, and neither \<^verbatim>\<open>EB_MATLAB_LICENSE_SERVER\<close> nor
  \<^verbatim>\<open>EB_MATLAB_LICENSE_SERVER_PORT\<close> is set in the environment, then the configure step
  writes the license file \<^verbatim>\<open>matlab.lic\<close> of the build directory, and its whole text is
  the line "SERVER license.example.com 000000000000 00000", a newline and "USE_SERVER".
\<close>

theorem default_license_text:
  assumes "license_file (cfg self) = None"
    and "license_server (cfg self) = None"
    and "license_server_port (cfg self) = None"
    and "environ w ''EB_MATLAB_LICENSE_SERVER'' = None"
    and "environ w ''EB_MATLAB_LICENSE_SERVER_PORT'' = None"
  shows "fst (license_step self w) = path_join (builddir self) [''matlab.lic'']
     \<and> files (snd (license_step self w)) (path_join (builddir self) [''matlab.lic''])
         = Some (''SERVER license.example.com 000000000000 00000'' @ [nl] @ ''USE_SERVER'')
     \<and> Write (path_join (builddir self) [''matlab.lic''])
          (''SERVER license.example.com 000000000000 00000'' @ [nl] @ ''USE_SERVER'')
         \<in> set (trace (snd (configure_step self w)))"
proof -
  let ?lic = "path_join (builddir self) [''matlab.lic'']"
  let ?txt = "''SERVER license.example.com 000000000000 00000'' @ [nl] @ ''USE_SERVER''"
  have step: "license_step self w = (?lic, write_file ?lic ?txt w)"
    using assms by (simp add: license_step_def getenv_def license_text_def Let_def)
  have "Write ?lic ?txt \<in> set (trace (write_file ?lic ?txt w))"
    by (simp add: write_file_def)
  then have "Write ?lic ?txt \<in> set (trace (snd (configure_step self w)))"
    unfolding configure_step_def step
    by (simp add: Let_def write_file_def split: option.splits sum.splits)
  with step show ?thesis by (simp add: write_file_def)
qed

text \<open>
  The claim as it was stated leaves out the configured server: with a license server in the
  configuration and nothing in the environment, the text names that server.
\<close>

theorem default_license_text_witness:
  "license_file (cfg (init sample_config ''/build'' ''/apps/matlab'' ''2019b'')) = None
   \<and> license_server (cfg (init sample_config ''/build'' ''/apps/matlab'' ''2019b'')) = None
   \<and> license_server_port (cfg (init sample_config ''/build'' ''/apps/matlab'' ''2019b'')) = None
   \<and> environ sample_world ''EB_MATLAB_LICENSE_SERVER'' = None
   \<and> environ sample_world ''EB_MATLAB_LICENSE_SERVER_PORT'' = None
   \<and> files (snd (license_step (init sample_config ''/build'' ''/apps/matlab'' ''2019b'') sample_world))
        ''/build/matlab.lic''
       = Some (''SERVER license.example.com 000000000000 00000'' @ [nl] @ ''USE_SERVER'')"
  using default_license_text [of "init sample_config ''/build'' ''/apps/matlab'' ''2019b''" sample_world]
  by (simp add: init_def sample_config_def sample_world_def path_join_def path_join2_def)

theorem configured_license_server_counterexample:
  "license_file (cfg (init (sample_config\<lparr>license_server := Some ''lm.example.org''\<rparr>)
       ''/build'' ''/apps/matlab'' ''2019b'')) = None
   \<and> environ sample_world ''EB_MATLAB_LICENSE_SERVER'' = None
   \<and> environ sample_world ''EB_MATLAB_LICENSE_SERVER_PORT'' = None
   \<and> files (snd (license_step (init (sample_config\<lparr>license_server := Some ''lm.example.org''\<rparr>)
          ''/build'' ''/apps/matlab'' ''2019b'') sample_world)) ''/build/matlab.lic''
       = Some (''SERVER lm.example.org 000000000000 00000'' @ [nl] @ ''USE_SERVER'')
   \<and> files (snd (license_step (init (sample_config\<lparr>license_server := Some ''lm.example.org''\<rparr>)
          ''/build'' ''/apps/matlab'' ''2019b'') sample_world)) ''/build/matlab.lic''
       \<noteq> Some (''SERVER license.example.com 000000000000 00000'' @ [nl] @ ''USE_SERVER'')"
  by (simp add: init_def sample_config_def sample_world_def path_join_def path_join2_def
      license_step_def getenv_def license_text_def Let_def write_file_def)


end
